theory Spec2Isabelle
  imports Complex_Main
begin

section \<open>The runner game of \<open>src/game.js\<close>\<close>

text \<open>
  The game keeps its state in module-level variables that the event handlers and the
  frame callback \<open>animate\<close> mutate. The model threads one record through every
  function. JavaScript numbers are idealised as rationals (\<open>rat\<close>); the score and the
  best score only ever hold integers and are \<open>int\<close>. Every call of \<open>Math.random()\<close>
  reads the next value of an oracle \<open>rnd :: nat \<Rightarrow> rat\<close>; the field \<open>rix\<close> counts the
  calls made since the scene was set up. Meshes, materials, colours, the camera, the
  stars, the ground lines, the wing, leg and head rotations and the DOM overlays are
  rendering only: nothing the model reads is written by them, so they are left out
  (their \<open>Math.random()\<close> calls are still counted).
\<close>

subsection \<open>Constants\<close>

definition baseSpeed :: rat where "baseSpeed = 15 / 100"
definition gravity :: rat where "gravity = 15 / 1000"
definition groundY :: rat where "groundY = - 2"

text \<open>\<open>dinoGroup.position.set(-4, groundY + 0.4, 0)\<close> and \<open>baseY: groundY + 0.4\<close>;
  \<open>dino.position.x\<close> is never written again.\<close>

definition dino_x :: rat where "dino_x = - 4"
definition baseY :: rat where "baseY = groundY + 4 / 10"

subsection \<open>Data\<close>

record vec3 =
  vx :: rat
  vy :: rat
  vz :: rat

record particle =
  position :: vec3
  velocity :: vec3
  life :: rat
  opacity :: rat
  rotSpeed :: "vec3 option"
  rotation :: vec3

datatype obstacle_type = Cactus | DoubleCactus | Pterodactyl

record obstacle =
  otype :: obstacle_type
  pos_x :: rat
  pos_y :: rat
  width :: rat
  height :: rat
  wingPhase :: "rat option"
  passed :: bool

record box =
  box_x :: rat
  box_y :: rat
  box_width :: rat
  box_height :: rat

text \<open>\<open>storage\<close> is the entry \<open>dinoHighScore\<close> of \<open>localStorage\<close>: \<open>None\<close> when the key
  is absent or does not parse as a number.\<close>

record game =
  obstacles :: "obstacle list"
  particles :: "particle list"
  gameStarted :: bool
  gameOver :: bool
  score :: int
  highScore :: int
  storage :: "int option"
  speed :: rat
  jumpVelocity :: rat
  isJumping :: bool
  isDucking :: bool
  obstacleTimer :: rat
  lastTime :: rat
  dino_y :: rat
  dino_scale_y :: rat
  dino_visible :: bool
  rix :: nat

text \<open>The module-level initialisers followed by \<open>createDino\<close>:
  \<open>highScore = parseInt(localStorage.getItem('dinoHighScore')) || 0\<close>.\<close>

definition initial :: "int option \<Rightarrow> game" where
  "initial stored =
     \<lparr>obstacles = [], particles = [], gameStarted = False, gameOver = False, score = 0,
      highScore = (case stored of None \<Rightarrow> 0 | Some v \<Rightarrow> if v = 0 then 0 else v),
      storage = stored, speed = 15 / 100, jumpVelocity = 0, isJumping = False,
      isDucking = False, obstacleTimer = 0, lastTime = 0, dino_y = groundY + 4 / 10,
      dino_scale_y = 1, dino_visible = True, rix = 0\<rparr>"

subsection \<open>Obstacles\<close>

text \<open>\<open>createCactus\<close> draws the trunk height, then \<open>Math.random() > 0.3\<close> (two more draws
  for the left arm and its connector when true), then \<open>Math.random() > 0.5\<close> (one more
  draw for the right arm when true). Only the number of draws matters here.\<close>

definition cactus_draws :: "(nat \<Rightarrow> rat) \<Rightarrow> nat \<Rightarrow> nat" where
  "cactus_draws rnd k =
     (let k1 = k + 1;
          k2 = (if rnd k1 > 3 / 10 then k1 + 3 else k1 + 1);
          k3 = (if rnd k2 > 5 / 10 then k2 + 2 else k2 + 1)
      in k3)"

definition createCactus :: "(nat \<Rightarrow> rat) \<Rightarrow> nat \<Rightarrow> obstacle \<times> nat" where
  "createCactus rnd k =
     (\<lparr>otype = Cactus, pos_x = 0, pos_y = groundY, width = 8 / 10, height = 25 / 10,
       wingPhase = None, passed = False\<rparr>, cactus_draws rnd k)"

definition createDoubleCactus :: "(nat \<Rightarrow> rat) \<Rightarrow> nat \<Rightarrow> obstacle \<times> nat" where
  "createDoubleCactus rnd k =
     (let (cactus1, k1) = createCactus rnd k;
          (cactus2, k2) = createCactus rnd k1
      in (\<lparr>otype = DoubleCactus, pos_x = 0, pos_y = groundY, width = 2, height = 25 / 10,
           wingPhase = None, passed = False\<rparr>, k2))"

definition createPterodactyl :: "(nat \<Rightarrow> rat) \<Rightarrow> nat \<Rightarrow> obstacle \<times> nat" where
  "createPterodactyl rnd k =
     (let flyHeight = (if rnd k > 5 / 10 then groundY + 3 else groundY + 12 / 10)
      in (\<lparr>otype = Pterodactyl, pos_x = 0, pos_y = flyHeight, width = 12 / 10,
           height = 15 / 10, wingPhase = Some 0, passed = False\<rparr>, k + 1))"

definition createObstacle :: "(nat \<Rightarrow> rat) \<Rightarrow> game \<Rightarrow> game" where
  "createObstacle rnd s =
     (let type = rnd (rix s);
          (obstacle, k) =
            (if type < 6 / 10 then createCactus rnd (rix s + 1)
             else if type < 85 / 100 then createDoubleCactus rnd (rix s + 1)
             else createPterodactyl rnd (rix s + 1))
      in s\<lparr>obstacles := obstacles s @ [obstacle\<lparr>pos_x := 20\<rparr>], rix := k\<rparr>)"

subsection \<open>Particle bursts\<close>

text \<open>Each burst is a counted loop that pushes one particle per iteration; iteration \<open>i\<close>
  reads its draws at a fixed offset from the draws made before the loop. The arguments of
  \<open>position.set\<close> are evaluated before the \<open>velocity\<close> literal.\<close>

definition jumpParticle :: "(nat \<Rightarrow> rat) \<Rightarrow> nat \<Rightarrow> rat \<Rightarrow> particle" where
  "jumpParticle rnd k y =
     \<lparr>position = \<lparr>vx = dino_x + (rnd k - 5 / 10) * 1, vy = y + rnd (k + 1) * (5 / 10),
                   vz = (rnd (k + 2) - 5 / 10) * 1\<rparr>,
      velocity = \<lparr>vx = (rnd (k + 3) - 5 / 10) * (2 / 10), vy = rnd (k + 4) * (15 / 100),
                   vz = (rnd (k + 5) - 5 / 10) * (2 / 10)\<rparr>,
      life = 1, opacity = 1, rotSpeed = None, rotation = \<lparr>vx = 0, vy = 0, vz = 0\<rparr>\<rparr>"

definition createJumpParticles :: "(nat \<Rightarrow> rat) \<Rightarrow> game \<Rightarrow> game" where
  "createJumpParticles rnd s =
     (let particleCount = 15
      in s\<lparr>particles := particles s @
              map (\<lambda>i. jumpParticle rnd (rix s + 6 * i) (dino_y s)) [0 ..< particleCount],
           rix := rix s + 6 * particleCount\<rparr>)"

text \<open>The first draw of a death particle picks its colour.\<close>

definition deathParticle :: "(nat \<Rightarrow> rat) \<Rightarrow> nat \<Rightarrow> rat \<Rightarrow> particle" where
  "deathParticle rnd k y =
     \<lparr>position = \<lparr>vx = dino_x, vy = y + 1, vz = 0\<rparr>,
      velocity = \<lparr>vx = (rnd (k + 1) - 5 / 10) * (4 / 10), vy = rnd (k + 2) * (3 / 10),
                   vz = (rnd (k + 3) - 5 / 10) * (4 / 10)\<rparr>,
      life = 1, opacity = 1,
      rotSpeed = Some \<lparr>vx = (rnd (k + 4) - 5 / 10) * (3 / 10),
                        vy = (rnd (k + 5) - 5 / 10) * (3 / 10),
                        vz = (rnd (k + 6) - 5 / 10) * (3 / 10)\<rparr>,
      rotation = \<lparr>vx = 0, vy = 0, vz = 0\<rparr>\<rparr>"

definition createDeathParticles :: "(nat \<Rightarrow> rat) \<Rightarrow> game \<Rightarrow> game" where
  "createDeathParticles rnd s =
     (let particleCount = 40
      in s\<lparr>particles := particles s @
              map (\<lambda>i. deathParticle rnd (rix s + 7 * i) (dino_y s)) [0 ..< particleCount],
           rix := rix s + 7 * particleCount\<rparr>)"

definition scoreParticle :: "(nat \<Rightarrow> rat) \<Rightarrow> nat \<Rightarrow> rat \<Rightarrow> particle" where
  "scoreParticle rnd k y =
     \<lparr>position = \<lparr>vx = dino_x + 1, vy = y + 15 / 10, vz = (rnd k - 5 / 10) * (5 / 10)\<rparr>,
      velocity = \<lparr>vx = 5 / 100 + rnd (k + 1) * (1 / 10),
                   vy = 1 / 10 + rnd (k + 2) * (15 / 100),
                   vz = (rnd (k + 3) - 5 / 10) * (1 / 10)\<rparr>,
      life = 1, opacity = 1, rotSpeed = None, rotation = \<lparr>vx = 0, vy = 0, vz = 0\<rparr>\<rparr>"

definition createScoreParticles :: "(nat \<Rightarrow> rat) \<Rightarrow> game \<Rightarrow> game" where
  "createScoreParticles rnd s =
     (let particleCount = 8
      in s\<lparr>particles := particles s @
              map (\<lambda>i. scoreParticle rnd (rix s + 4 * i) (dino_y s)) [0 ..< particleCount],
           rix := rix s + 4 * particleCount\<rparr>)"

subsection \<open>Input handlers\<close>

definition jump :: "(nat \<Rightarrow> rat) \<Rightarrow> game \<Rightarrow> game" where
  "jump rnd s =
     (if \<not> isJumping s \<and> \<not> gameOver s
      then createJumpParticles rnd (s\<lparr>isJumping := True, jumpVelocity := 35 / 100\<rparr>)
      else s)"

definition startGame :: "game \<Rightarrow> game" where
  "startGame s = s\<lparr>gameStarted := True, gameOver := False, score := 0, speed := baseSpeed\<rparr>"

definition restartGame :: "game \<Rightarrow> game" where
  "restartGame s =
     startGame (s\<lparr>obstacles := [], particles := [], dino_y := baseY, dino_scale_y := 1,
                  dino_visible := True, isJumping := False, isDucking := False,
                  jumpVelocity := 0, obstacleTimer := 0\<rparr>)"

text \<open>The argument \<open>code\<close> is \<open>e.code\<close>. The two \<open>if\<close> statements of \<open>onKeyDown\<close> run one
  after the other.\<close>

definition onKeyDown :: "(nat \<Rightarrow> rat) \<Rightarrow> string \<Rightarrow> game \<Rightarrow> game" where
  "onKeyDown rnd code s =
     (let s1 = (if code = ''Space'' \<or> code = ''ArrowUp''
                then (if \<not> gameStarted s then startGame s
                      else if gameOver s then restartGame s
                      else jump rnd s)
                else s)
      in if code = ''ArrowDown'' \<and> gameStarted s1 \<and> \<not> gameOver s1
         then s1\<lparr>isDucking := True, dino_scale_y := 5 / 10, dino_y := baseY - 5 / 10\<rparr>
         else s1)"

definition onKeyUp :: "string \<Rightarrow> game \<Rightarrow> game" where
  "onKeyUp code s =
     (if code = ''ArrowDown''
      then (let s1 = s\<lparr>isDucking := False, dino_scale_y := 1\<rparr>
            in if \<not> isJumping s1 then s1\<lparr>dino_y := baseY\<rparr> else s1)
      else s)"

definition onPointerDown :: "game \<Rightarrow> game" where
  "onPointerDown s =
     (if \<not> gameStarted s then startGame s
      else if gameOver s then restartGame s
      else if \<not> isJumping s
        then s\<lparr>isDucking := True, dino_scale_y := 5 / 10, dino_y := baseY - 5 / 10\<rparr>
      else s)"

definition onPointerUp :: "(nat \<Rightarrow> rat) \<Rightarrow> game \<Rightarrow> game" where
  "onPointerUp rnd s =
     (if \<not> gameStarted s \<or> gameOver s then s
      else jump rnd (if isDucking s
                     then s\<lparr>isDucking := False, dino_scale_y := 1, dino_y := baseY\<rparr>
                     else s))"

subsection \<open>End of a run and collision\<close>

definition endGame :: "(nat \<Rightarrow> rat) \<Rightarrow> game \<Rightarrow> game" where
  "endGame rnd s =
     (let s1 = (createDeathParticles rnd (s\<lparr>gameOver := True\<rparr>))\<lparr>dino_visible := False\<rparr>
      in if score s1 > highScore s1
         then s1\<lparr>highScore := score s1, storage := Some (score s1)\<rparr>
         else s1)"

definition dinoBox :: "game \<Rightarrow> box" where
  "dinoBox s =
     \<lparr>box_x = dino_x - 4 / 10, box_y = dino_y s, box_width = 12 / 10,
      box_height = (if isDucking s then 1 else 2)\<rparr>"

definition obsBox :: "obstacle \<Rightarrow> box" where
  "obsBox obstacle =
     \<lparr>box_x = pos_x obstacle - width obstacle / 2, box_y = pos_y obstacle,
      box_width = width obstacle, box_height = height obstacle\<rparr>"

definition checkCollision :: "game \<Rightarrow> obstacle \<Rightarrow> bool" where
  "checkCollision s obstacle =
     (\<not> (box_x (dinoBox s) + box_width (dinoBox s) < box_x (obsBox obstacle) \<or>
         box_x (dinoBox s) > box_x (obsBox obstacle) + box_width (obsBox obstacle) \<or>
         box_y (dinoBox s) + box_height (dinoBox s) < box_y (obsBox obstacle) \<or>
         box_y (dinoBox s) > box_y (obsBox obstacle) + box_height (obsBox obstacle)))"

subsection \<open>The frame callback\<close>

text \<open>\<open>const spawnInterval = Math.max(50, 100 - score * 0.03)\<close>, as a function of the
  score.\<close>

definition spawnInterval :: "int \<Rightarrow> rat" where
  "spawnInterval sc = max 50 (100 - of_int sc * (3 / 100))"

text \<open>The body of the obstacle loop at index \<open>i\<close>. The loop only visits indices below the
  current length, so \<open>obstacles s ! i\<close> is always an element. \<open>obs\<close> is the array element
  itself; its mutations are written back at the end, and \<open>splice(i, 1)\<close> removes it.\<close>

definition obstacle_step :: "(nat \<Rightarrow> rat) \<Rightarrow> rat \<Rightarrow> nat \<Rightarrow> game \<Rightarrow> game" where
  "obstacle_step rnd delta i s =
     (let obs = obstacles s ! i;
          obs1 = obs\<lparr>pos_x := pos_x obs - speed s * delta\<rparr>;
          obs2 = (if otype obs1 = Pterodactyl
                  then obs1\<lparr>wingPhase := map_option (\<lambda>w. w + (2 / 10) * delta) (wingPhase obs1)\<rparr>
                  else obs1);
          scored = (\<not> passed obs2 \<and> pos_x obs2 < dino_x - 1);
          obs3 = (if scored then obs2\<lparr>passed := True\<rparr> else obs2);
          s1 = (if scored then createScoreParticles rnd (s\<lparr>score := score s + 100\<rparr>) else s);
          s2 = (if checkCollision s1 obs3 then endGame rnd s1 else s1)
      in if pos_x obs3 < - 15
         then s2\<lparr>obstacles := take i (obstacles s2) @ drop (Suc i) (obstacles s2)\<rparr>
         else s2\<lparr>obstacles := (obstacles s2)[i := obs3]\<rparr>)"

text \<open>\<open>for (let i = obstacles.length - 1; i >= 0; i--)\<close>: \<open>obstacle_loop rnd delta n\<close> runs
  the body at indices \<open>n - 1\<close> down to \<open>0\<close>.\<close>

fun obstacle_loop :: "(nat \<Rightarrow> rat) \<Rightarrow> rat \<Rightarrow> nat \<Rightarrow> game \<Rightarrow> game" where
  "obstacle_loop rnd delta 0 s = s"
| "obstacle_loop rnd delta (Suc i) s = obstacle_loop rnd delta i (obstacle_step rnd delta i s)"

text \<open>The mutations of one particle in the particle loop.\<close>

definition particle_advance :: "particle \<Rightarrow> particle" where
  "particle_advance p =
     (let p1 = p\<lparr>position := \<lparr>vx = vx (position p) + vx (velocity p),
                              vy = vy (position p) + vy (velocity p),
                              vz = vz (position p) + vz (velocity p)\<rparr>\<rparr>;
          p2 = p1\<lparr>velocity := (velocity p1)\<lparr>vy := vy (velocity p1) - 8 / 1000\<rparr>\<rparr>;
          p3 = p2\<lparr>life := life p2 - 2 / 100\<rparr>;
          p4 = p3\<lparr>opacity := life p3\<rparr>
      in case rotSpeed p4 of
           None \<Rightarrow> p4
         | Some r \<Rightarrow> p4\<lparr>rotation := \<lparr>vx = vx (rotation p4) + vx r,
                                       vy = vy (rotation p4) + vy r,
                                       vz = vz (rotation p4) + vz r\<rparr>\<rparr>)"

definition particle_step :: "nat \<Rightarrow> game \<Rightarrow> game" where
  "particle_step i s =
     (let p = particle_advance (particles s ! i)
      in if life p \<le> 0
         then s\<lparr>particles := take i (particles s) @ drop (Suc i) (particles s)\<rparr>
         else s\<lparr>particles := (particles s)[i := p]\<rparr>)"

fun particle_loop :: "nat \<Rightarrow> game \<Rightarrow> game" where
  "particle_loop 0 s = s"
| "particle_loop (Suc i) s = particle_loop i (particle_step i s)"

text \<open>The blocks of \<open>animate\<close>, in the order of the source.\<close>

definition spawn_obstacles :: "(nat \<Rightarrow> rat) \<Rightarrow> rat \<Rightarrow> game \<Rightarrow> game" where
  "spawn_obstacles rnd delta s =
     (let s1 = s\<lparr>obstacleTimer := obstacleTimer s + delta\<rparr>
      in if obstacleTimer s1 > spawnInterval (score s1)
         then (createObstacle rnd s1)\<lparr>obstacleTimer := 0\<rparr>
         else s1)"

definition jump_physics :: "(nat \<Rightarrow> rat) \<Rightarrow> rat \<Rightarrow> game \<Rightarrow> game" where
  "jump_physics rnd delta s =
     (if isJumping s
      then (let s1 = s\<lparr>dino_y := dino_y s + jumpVelocity s * delta\<rparr>;
                s2 = s1\<lparr>jumpVelocity := jumpVelocity s1 - gravity * delta\<rparr>
            in if dino_y s2 \<le> baseY
               then createJumpParticles rnd
                      (s2\<lparr>dino_y := baseY, isJumping := False, jumpVelocity := 0\<rparr>)
               else s2)
      else s)"

text \<open>The block guarded by \<open>if (gameStarted && !gameOver)\<close>; the guard is read once, at
  the top.\<close>

definition play_update :: "(nat \<Rightarrow> rat) \<Rightarrow> rat \<Rightarrow> game \<Rightarrow> game" where
  "play_update rnd delta s =
     (if gameStarted s \<and> \<not> gameOver s
      then (let a = s\<lparr>speed := baseSpeed + of_int (score s) * (5 / 100000)\<rparr>;
                b = spawn_obstacles rnd delta a;
                c = obstacle_loop rnd delta (length (obstacles b)) b
            in jump_physics rnd delta c)
      else s)"

text \<open>The camera is not part of the state, but its shake draws two random numbers at
  the end of a frame: \<open>if (gameOver && particles.length > 0)\<close>.\<close>

definition camera_shake :: "game \<Rightarrow> game" where
  "camera_shake s = (if gameOver s \<and> length (particles s) > 0 then s\<lparr>rix := rix s + 2\<rparr> else s)"

definition animate :: "(nat \<Rightarrow> rat) \<Rightarrow> rat \<Rightarrow> game \<Rightarrow> game" where
  "animate rnd time s =
     (let delta = min ((time - lastTime s) / (1667 / 100)) 2;
          s1 = s\<lparr>lastTime := time\<rparr>;
          s2 = play_update rnd delta s1;
          s3 = particle_loop (length (particles s2)) s2
      in camera_shake s3)"

subsection \<open>Runs\<close>

text \<open>The browser delivers one event at a time; a frame carries its timestamp.\<close>

datatype event = KeyDown string | KeyUp string | PointerDown | PointerUp | Frame rat

fun step :: "(nat \<Rightarrow> rat) \<Rightarrow> game \<Rightarrow> event \<Rightarrow> game" where
  "step rnd s (KeyDown code) = onKeyDown rnd code s"
| "step rnd s (KeyUp code) = onKeyUp code s"
| "step rnd s PointerDown = onPointerDown s"
| "step rnd s PointerUp = onPointerUp rnd s"
| "step rnd s (Frame time) = animate rnd time s"

definition run :: "(nat \<Rightarrow> rat) \<Rightarrow> game \<Rightarrow> event list \<Rightarrow> game" where
  "run rnd s evs = foldl (step rnd) s evs"

subsection \<open>The loops, element by element\<close>

text \<open>What one pass of the obstacle loop does to an obstacle, and what it does to the rest
  of the state, written over the list instead of over indices. \<open>sp\<close> is the speed of the
  tick.\<close>

definition scores_now :: "rat \<Rightarrow> rat \<Rightarrow> obstacle \<Rightarrow> bool" where
  "scores_now sp delta obs = (\<not> passed obs \<and> pos_x obs - sp * delta < dino_x - 1)"

definition advance_obstacle :: "rat \<Rightarrow> rat \<Rightarrow> obstacle \<Rightarrow> obstacle" where
  "advance_obstacle sp delta obs =
     (let obs1 = obs\<lparr>pos_x := pos_x obs - sp * delta\<rparr>;
          obs2 = (if otype obs1 = Pterodactyl
                  then obs1\<lparr>wingPhase := map_option (\<lambda>w. w + (2 / 10) * delta) (wingPhase obs1)\<rparr>
                  else obs1)
      in if scores_now sp delta obs then obs2\<lparr>passed := True\<rparr> else obs2)"

definition obstacle_effect :: "(nat \<Rightarrow> rat) \<Rightarrow> rat \<Rightarrow> obstacle \<Rightarrow> game \<Rightarrow> game" where
  "obstacle_effect rnd delta obs s =
     (let s1 = (if scores_now (speed s) delta obs
                then createScoreParticles rnd (s\<lparr>score := score s + 100\<rparr>)
                else s)
      in if checkCollision s1 (advance_obstacle (speed s) delta obs) then endGame rnd s1 else s1)"

definition on_screen :: "obstacle \<Rightarrow> bool" where
  "on_screen obs = (\<not> pos_x obs < - 15)"

definition obstacle_pass :: "(nat \<Rightarrow> rat) \<Rightarrow> rat \<Rightarrow> game \<Rightarrow> game" where
  "obstacle_pass rnd delta s =
     (fold (obstacle_effect rnd delta) (rev (obstacles s)) s)
       \<lparr>obstacles := filter on_screen (map (advance_obstacle (speed s) delta) (obstacles s))\<rparr>"

definition alive :: "particle \<Rightarrow> bool" where
  "alive p = (\<not> life p \<le> 0)"

definition particle_pass :: "game \<Rightarrow> game" where
  "particle_pass s = s\<lparr>particles := filter alive (map particle_advance (particles s))\<rparr>"

text \<open>The delta multiplier of a frame at \<open>time\<close>.\<close>

definition frame_delta :: "rat \<Rightarrow> game \<Rightarrow> rat" where
  "frame_delta time s = min ((time - lastTime s) / (1667 / 100)) 2"

text \<open>The state handed to the obstacle loop in a tick of a running game.\<close>

definition before_obstacles :: "(nat \<Rightarrow> rat) \<Rightarrow> rat \<Rightarrow> game \<Rightarrow> game" where
  "before_obstacles rnd time s =
     spawn_obstacles rnd (frame_delta time s)
       (s\<lparr>lastTime := time, speed := baseSpeed + of_int (score s) * (5 / 100000)\<rparr>)"

text \<open>The best score that a page load would read back from the store:
  \<open>parseInt(localStorage.getItem('dinoHighScore')) || 0\<close>.\<close>

definition stored_best :: "game \<Rightarrow> int" where
  "stored_best s = (case storage s of None \<Rightarrow> 0 | Some v \<Rightarrow> if v = 0 then 0 else v)"

subsection \<open>A game under way\<close>

text \<open>\<open>frames_from t n\<close> is \<open>n\<close> frames 40 ms apart, the first one 40 ms after \<open>t\<close>.\<close>

definition frames_from :: "rat \<Rightarrow> nat \<Rightarrow> event list" where
  "frames_from t n = map (\<lambda>k. Frame (t + 40 * of_nat (Suc k))) [0 ..< n]"

text \<open>A cactus as \<open>createCactus\<close> makes it, placed at \<open>x\<close>.\<close>

definition cactus_at :: "rat \<Rightarrow> obstacle" where
  "cactus_at x =
     \<lparr>otype = Cactus, pos_x = x, pos_y = groundY, width = 8 / 10, height = 25 / 10,
      wingPhase = None, passed = False\<rparr>"

text \<open>A first game on a fresh page with nothing stored, score 0, the player standing on the
  ground, no particles, and cacti at the positions \<open>xs\<close>; \<open>timer\<close> is the spawn timer,
  \<open>t\<close> the time of the last frame and \<open>k\<close> the number of draws made.\<close>

definition cruising :: "rat list \<Rightarrow> rat \<Rightarrow> rat \<Rightarrow> nat \<Rightarrow> game" where
  "cruising xs timer t k =
     \<lparr>obstacles = map cactus_at xs, particles = [], gameStarted = True, gameOver = False,
      score = 0, highScore = 0, storage = None, speed = 15 / 100, jumpVelocity = 0,
      isJumping = False, isDucking = False, obstacleTimer = timer, lastTime = t,
      dino_y = groundY + 4 / 10, dino_scale_y = 1, dino_visible = True, rix = k\<rparr>"

section \<open>The loops as list operations\<close>

lemma particle_step_particles:
  "n < length (particles s) \<Longrightarrow>
   particle_step n s =
     s\<lparr>particles := take n (particles s) @
          filter alive [particle_advance (particles s ! n)] @ drop (Suc n) (particles s)\<rparr>"
  by (simp add: particle_step_def Let_def alive_def upd_conv_take_nth_drop)

lemma particle_loop_take:
  "n \<le> length (particles s) \<Longrightarrow>
   particle_loop n s =
     s\<lparr>particles := filter alive (map particle_advance (take n (particles s))) @
                      drop n (particles s)\<rparr>"
proof (induction n arbitrary: s)
  case 0
  then show ?case by simp
next
  case (Suc n)
  let ?ps = "particles s"
  let ?s' = "particle_step n s"
  from Suc.prems have lt: "n < length ?ps" by simp
  have ps': "particles ?s' =
      take n ?ps @ filter alive [particle_advance (?ps ! n)] @ drop (Suc n) ?ps"
    using lt by (simp add: particle_step_particles)
  have len: "n \<le> length (particles ?s')" using lt by (simp add: ps')
  have tk: "take n (particles ?s') = take n ?ps" using lt by (simp add: ps')
  have dr: "drop n (particles ?s') =
      filter alive [particle_advance (?ps ! n)] @ drop (Suc n) ?ps"
    using lt by (simp add: ps')
  have "particle_loop (Suc n) s = particle_loop n ?s'" by simp
  also have "\<dots> = ?s'\<lparr>particles := filter alive (map particle_advance (take n (particles ?s'))) @
                      drop n (particles ?s')\<rparr>"
    using Suc.IH [OF len] .
  also have "\<dots> = s\<lparr>particles := filter alive (map particle_advance (take (Suc n) ?ps)) @
                      drop (Suc n) ?ps\<rparr>"
    using lt by (simp add: tk dr particle_step_particles take_Suc_conv_app_nth)
  finally show ?case .
qed

lemma particle_loop_pass: "particle_loop (length (particles s)) s = particle_pass s"
  by (simp add: particle_loop_take particle_pass_def)

lemmas burst_defs = createScoreParticles_def createDeathParticles_def createJumpParticles_def

lemma checkCollision_cong:
  "dino_y s' = dino_y s \<Longrightarrow> isDucking s' = isDucking s \<Longrightarrow>
   checkCollision s' obs = checkCollision s obs"
  by (simp add: checkCollision_def dinoBox_def)

lemma obstacle_effect_obstacles_update:
  "obstacle_effect rnd delta obs (s\<lparr>obstacles := xs\<rparr>) =
   (obstacle_effect rnd delta obs s)\<lparr>obstacles := xs\<rparr>"
  by (simp add: obstacle_effect_def endGame_def burst_defs Let_def checkCollision_def dinoBox_def)

lemma obstacle_effect_kept:
  "speed (obstacle_effect rnd delta obs s) = speed s"
  "dino_y (obstacle_effect rnd delta obs s) = dino_y s"
  "isDucking (obstacle_effect rnd delta obs s) = isDucking s"
  "obstacles (obstacle_effect rnd delta obs s) = obstacles s"
  by (simp_all add: obstacle_effect_def endGame_def burst_defs Let_def)

lemma fold_effect_obstacles_update:
  "fold (obstacle_effect rnd delta) xs (s\<lparr>obstacles := ys\<rparr>) =
   (fold (obstacle_effect rnd delta) xs s)\<lparr>obstacles := ys\<rparr>"
  by (induction xs arbitrary: s) (simp_all add: obstacle_effect_obstacles_update)

lemma fold_effect_kept:
  "speed (fold (obstacle_effect rnd delta) xs s) = speed s"
  "dino_y (fold (obstacle_effect rnd delta) xs s) = dino_y s"
  "isDucking (fold (obstacle_effect rnd delta) xs s) = isDucking s"
  "obstacles (fold (obstacle_effect rnd delta) xs s) = obstacles s"
  by (induction xs arbitrary: s) (simp_all add: obstacle_effect_kept)

lemma burst_obstacles:
  "obstacles (createScoreParticles rnd s) = obstacles s"
  "obstacles (endGame rnd s) = obstacles s"
  by (simp_all add: endGame_def burst_defs Let_def)

lemma obstacle_step_unfold:
  "obstacle_step rnd delta n s =
     (let obs3 = advance_obstacle (speed s) delta (obstacles s ! n);
          s2 = obstacle_effect rnd delta (obstacles s ! n) s
      in if pos_x obs3 < - 15
         then s2\<lparr>obstacles := take n (obstacles s2) @ drop (Suc n) (obstacles s2)\<rparr>
         else s2\<lparr>obstacles := (obstacles s2)[n := obs3]\<rparr>)"
proof -
  let ?o = "obstacles s ! n"
  have go: ?thesis
    if "(otype ?o = Pterodactyl) = p" and "passed ?o = q"
      and "(pos_x ?o - speed s * delta < dino_x - 1) = r" for p q r
    using that
    by (cases p; cases q; cases r)
       (simp_all add: obstacle_step_def obstacle_effect_def advance_obstacle_def scores_now_def
          Let_def split del: if_split cong: if_cong)
  show ?thesis by (rule go [OF refl refl refl])
qed

lemma obstacle_step_effect:
  "n < length (obstacles s) \<Longrightarrow>
   obstacle_step rnd delta n s =
     (obstacle_effect rnd delta (obstacles s ! n) s)
       \<lparr>obstacles := take n (obstacles s) @
          filter on_screen [advance_obstacle (speed s) delta (obstacles s ! n)] @
          drop (Suc n) (obstacles s)\<rparr>"
  by (cases "pos_x (advance_obstacle (speed s) delta (obstacles s ! n)) < - 15")
     (simp_all add: obstacle_step_unfold Let_def obstacle_effect_kept on_screen_def
        upd_conv_take_nth_drop)

lemma obstacle_loop_take:
  "n \<le> length (obstacles s) \<Longrightarrow>
   obstacle_loop rnd delta n s =
     (fold (obstacle_effect rnd delta) (rev (take n (obstacles s))) s)
       \<lparr>obstacles := filter on_screen (map (advance_obstacle (speed s) delta) (take n (obstacles s))) @
                      drop n (obstacles s)\<rparr>"
proof (induction n arbitrary: s)
  case 0
  then show ?case by simp
next
  case (Suc n)
  let ?os = "obstacles s"
  let ?s' = "obstacle_step rnd delta n s"
  let ?mid = "filter on_screen [advance_obstacle (speed s) delta (?os ! n)]"
  from Suc.prems have lt: "n < length ?os" by simp
  have s': "?s' = (obstacle_effect rnd delta (?os ! n) s)
                    \<lparr>obstacles := take n ?os @ ?mid @ drop (Suc n) ?os\<rparr>"
    using lt by (rule obstacle_step_effect)
  have os': "obstacles ?s' = take n ?os @ ?mid @ drop (Suc n) ?os"
    by (simp add: s')
  have sp: "speed ?s' = speed s" by (simp add: s' obstacle_effect_kept)
  have len: "n \<le> length (obstacles ?s')" using lt by (simp add: os')
  have tk: "take n (obstacles ?s') = take n ?os" using lt by (simp add: os')
  have dr: "drop n (obstacles ?s') = ?mid @ drop (Suc n) ?os" using lt by (simp add: os')
  have "obstacle_loop rnd delta (Suc n) s = obstacle_loop rnd delta n ?s'" by simp
  also have "\<dots> = (fold (obstacle_effect rnd delta) (rev (take n ?os)) ?s')
       \<lparr>obstacles := filter on_screen (map (advance_obstacle (speed s) delta) (take n ?os)) @
                      ?mid @ drop (Suc n) ?os\<rparr>"
    using Suc.IH [OF len] by (simp only: tk dr sp)
  also have "\<dots> = (fold (obstacle_effect rnd delta) (rev (take (Suc n) ?os)) s)
       \<lparr>obstacles := filter on_screen (map (advance_obstacle (speed s) delta) (take (Suc n) ?os)) @
                      drop (Suc n) ?os\<rparr>"
    using lt by (simp add: s' fold_effect_obstacles_update take_Suc_conv_app_nth)
  finally show ?case .
qed

lemma obstacle_loop_pass:
  "obstacle_loop rnd delta (length (obstacles s)) s = obstacle_pass rnd delta s"
  by (simp add: obstacle_loop_take obstacle_pass_def)

section \<open>What each block of a tick leaves alone\<close>

lemma obstacle_effect_kept2:
  "isJumping (obstacle_effect rnd delta obs s) = isJumping s"
  "jumpVelocity (obstacle_effect rnd delta obs s) = jumpVelocity s"
  "gameStarted (obstacle_effect rnd delta obs s) = gameStarted s"
  "obstacleTimer (obstacle_effect rnd delta obs s) = obstacleTimer s"
  by (simp_all add: obstacle_effect_def endGame_def burst_defs Let_def)

lemma fold_effect_kept2:
  "isJumping (fold (obstacle_effect rnd delta) xs s) = isJumping s"
  "jumpVelocity (fold (obstacle_effect rnd delta) xs s) = jumpVelocity s"
  "gameStarted (fold (obstacle_effect rnd delta) xs s) = gameStarted s"
  "obstacleTimer (fold (obstacle_effect rnd delta) xs s) = obstacleTimer s"
  by (induction xs arbitrary: s) (simp_all add: obstacle_effect_kept2)

lemma obstacle_pass_kept:
  "dino_y (obstacle_pass rnd delta s) = dino_y s"
  "isDucking (obstacle_pass rnd delta s) = isDucking s"
  "isJumping (obstacle_pass rnd delta s) = isJumping s"
  "jumpVelocity (obstacle_pass rnd delta s) = jumpVelocity s"
  "gameStarted (obstacle_pass rnd delta s) = gameStarted s"
  "speed (obstacle_pass rnd delta s) = speed s"
  by (simp_all add: obstacle_pass_def fold_effect_kept fold_effect_kept2)

lemma spawn_obstacles_kept:
  "dino_y (spawn_obstacles rnd delta s) = dino_y s"
  "isDucking (spawn_obstacles rnd delta s) = isDucking s"
  "isJumping (spawn_obstacles rnd delta s) = isJumping s"
  "jumpVelocity (spawn_obstacles rnd delta s) = jumpVelocity s"
  "gameStarted (spawn_obstacles rnd delta s) = gameStarted s"
  "gameOver (spawn_obstacles rnd delta s) = gameOver s"
  "score (spawn_obstacles rnd delta s) = score s"
  "highScore (spawn_obstacles rnd delta s) = highScore s"
  "storage (spawn_obstacles rnd delta s) = storage s"
  "speed (spawn_obstacles rnd delta s) = speed s"
  "particles (spawn_obstacles rnd delta s) = particles s"
  by (simp_all add: spawn_obstacles_def createObstacle_def Let_def split: prod.splits)

lemma jump_physics_kept:
  "gameStarted (jump_physics rnd delta s) = gameStarted s"
  "gameOver (jump_physics rnd delta s) = gameOver s"
  "score (jump_physics rnd delta s) = score s"
  "highScore (jump_physics rnd delta s) = highScore s"
  "storage (jump_physics rnd delta s) = storage s"
  "obstacles (jump_physics rnd delta s) = obstacles s"
  "isDucking (jump_physics rnd delta s) = isDucking s"
  by (simp_all add: jump_physics_def burst_defs Let_def)

lemma play_update_pass:
  "gameStarted s \<Longrightarrow> \<not> gameOver s \<Longrightarrow>
   play_update rnd delta s =
     jump_physics rnd delta (obstacle_pass rnd delta (spawn_obstacles rnd delta
       (s\<lparr>speed := baseSpeed + of_int (score s) * (5 / 100000)\<rparr>)))"
  by (simp add: play_update_def Let_def obstacle_loop_pass)

lemma play_update_idle:
  "\<not> (gameStarted s \<and> \<not> gameOver s) \<Longrightarrow> play_update rnd delta s = s"
  by (auto simp add: play_update_def)

lemma camera_shake_kept [simp]:
  "obstacles (camera_shake s) = obstacles s"
  "particles (camera_shake s) = particles s"
  "gameStarted (camera_shake s) = gameStarted s"
  "gameOver (camera_shake s) = gameOver s"
  "score (camera_shake s) = score s"
  "highScore (camera_shake s) = highScore s"
  "storage (camera_shake s) = storage s"
  "speed (camera_shake s) = speed s"
  "jumpVelocity (camera_shake s) = jumpVelocity s"
  "isJumping (camera_shake s) = isJumping s"
  "isDucking (camera_shake s) = isDucking s"
  "obstacleTimer (camera_shake s) = obstacleTimer s"
  "lastTime (camera_shake s) = lastTime s"
  "dino_y (camera_shake s) = dino_y s"
  by (simp_all add: camera_shake_def)

lemma animate_pass:
  "animate rnd time s =
     camera_shake (particle_pass (play_update rnd (frame_delta time s) (s\<lparr>lastTime := time\<rparr>)))"
  by (simp add: animate_def Let_def particle_loop_pass frame_delta_def)

lemma particle_pass_kept:
  "dino_y (particle_pass s) = dino_y s"
  "isDucking (particle_pass s) = isDucking s"
  "isJumping (particle_pass s) = isJumping s"
  "jumpVelocity (particle_pass s) = jumpVelocity s"
  "gameStarted (particle_pass s) = gameStarted s"
  "gameOver (particle_pass s) = gameOver s"
  "score (particle_pass s) = score s"
  "highScore (particle_pass s) = highScore s"
  "storage (particle_pass s) = storage s"
  "obstacles (particle_pass s) = obstacles s"
  "obstacleTimer (particle_pass s) = obstacleTimer s"
  "speed (particle_pass s) = speed s"
  by (simp_all add: particle_pass_def)


lemma play_update_grounded:
  "(\<not> isJumping s \<longrightarrow> jumpVelocity s = 0) \<Longrightarrow>
   \<not> isJumping (play_update rnd delta s) \<longrightarrow> jumpVelocity (play_update rnd delta s) = 0"
  by (simp add: play_update_def Let_def obstacle_loop_pass jump_physics_def burst_defs
      obstacle_pass_kept spawn_obstacles_kept)

lemma step_grounded:
  "(\<not> isJumping s \<longrightarrow> jumpVelocity s = 0) \<Longrightarrow>
   \<not> isJumping (step rnd s e) \<longrightarrow> jumpVelocity (step rnd s e) = 0"
proof (cases e)
  case (Frame t)
  assume "\<not> isJumping s \<longrightarrow> jumpVelocity s = 0"
  then have "\<not> isJumping (s\<lparr>lastTime := t\<rparr>) \<longrightarrow> jumpVelocity (s\<lparr>lastTime := t\<rparr>) = 0" by simp
  from play_update_grounded [OF this] show ?thesis
    by (simp add: Frame animate_pass particle_pass_kept)
qed (auto simp: onKeyDown_def onKeyUp_def onPointerDown_def onPointerUp_def jump_def
       startGame_def restartGame_def burst_defs Let_def)




section \<open>Runs of events\<close>

lemmas handler_defs = onKeyDown_def onKeyUp_def onPointerDown_def onPointerUp_def jump_def
  startGame_def restartGame_def

lemmas const_defs = baseSpeed_def gravity_def groundY_def baseY_def dino_x_def

lemmas eval_defs = run_def initial_def handler_defs burst_defs jumpParticle_def
  deathParticle_def scoreParticle_def animate_pass play_update_def obstacle_loop_pass
  obstacle_pass_def obstacle_effect_def advance_obstacle_def scores_now_def on_screen_def
  particle_pass_def particle_advance_def alive_def jump_physics_def spawn_obstacles_def
  spawnInterval_def createObstacle_def createCactus_def createDoubleCactus_def
  createPterodactyl_def cactus_draws_def checkCollision_def dinoBox_def obsBox_def
  endGame_def frame_delta_def stored_best_def camera_shake_def const_defs Let_def upt_rec

lemma run_Nil: "run rnd s [] = s"
  by (simp add: run_def)

lemma run_Cons: "run rnd s (e # evs) = run rnd (step rnd s e) evs"
  by (simp add: run_def)

lemma run_snoc: "run rnd s (evs @ [e]) = step rnd (run rnd s evs) e"
  by (simp add: run_def)

lemma run_grounded:
  "(\<not> isJumping s \<longrightarrow> jumpVelocity s = 0) \<Longrightarrow>
   \<not> isJumping (run rnd s evs) \<longrightarrow> jumpVelocity (run rnd s evs) = 0"
proof (induction evs rule: rev_induct)
  case Nil
  then show ?case by (simp add: run_Nil)
next
  case (snoc e evs)
  then show ?case unfolding run_snoc by (intro step_grounded) simp
qed



section \<open>Score, collision and height through a tick\<close>

lemma obstacle_effect_score:
  "score (obstacle_effect rnd delta obs s) =
   score s + (if scores_now (speed s) delta obs then 100 else 0)"
  by (simp add: obstacle_effect_def endGame_def burst_defs Let_def)

lemma fold_effect_score:
  "score (fold (obstacle_effect rnd delta) xs s) =
   score s + 100 * int (length (filter (scores_now (speed s) delta) xs))"
  by (induction xs arbitrary: s) (simp_all add: obstacle_effect_score obstacle_effect_kept)

lemma obstacle_pass_score:
  "score (obstacle_pass rnd delta s) =
   score s + 100 * int (length (filter (scores_now (speed s) delta) (obstacles s)))"
proof -
  have "length (filter (scores_now (speed s) delta) (rev (obstacles s))) =
        length (filter (scores_now (speed s) delta) (obstacles s))"
    by (simp flip: rev_filter)
  then show ?thesis by (simp add: obstacle_pass_def fold_effect_score)
qed

lemma obstacle_pass_obstacles:
  "obstacles (obstacle_pass rnd delta s) =
   filter on_screen (map (advance_obstacle (speed s) delta) (obstacles s))"
  by (simp add: obstacle_pass_def)

lemma advance_obstacle_fields:
  "pos_x (advance_obstacle sp delta obs) = pos_x obs - sp * delta"
  "passed (advance_obstacle sp delta obs) = (passed obs \<or> scores_now sp delta obs)"
  "pos_y (advance_obstacle sp delta obs) = pos_y obs"
  "width (advance_obstacle sp delta obs) = width obs"
  "height (advance_obstacle sp delta obs) = height obs"
  "otype (advance_obstacle sp delta obs) = otype obs"
  by (simp_all add: advance_obstacle_def Let_def)

lemma before_obstacles_kept:
  "score (before_obstacles rnd time s) = score s"
  "speed (before_obstacles rnd time s) = baseSpeed + of_int (score s) * (5 / 100000)"
  "dino_y (before_obstacles rnd time s) = dino_y s"
  "isDucking (before_obstacles rnd time s) = isDucking s"
  "isJumping (before_obstacles rnd time s) = isJumping s"
  "jumpVelocity (before_obstacles rnd time s) = jumpVelocity s"
  "gameOver (before_obstacles rnd time s) = gameOver s"
  by (simp_all add: before_obstacles_def spawn_obstacles_kept)

lemma animate_playing:
  "gameStarted s \<Longrightarrow> \<not> gameOver s \<Longrightarrow>
   animate rnd time s =
     camera_shake (particle_pass (jump_physics rnd (frame_delta time s)
       (obstacle_pass rnd (frame_delta time s) (before_obstacles rnd time s))))"
  by (simp add: animate_pass play_update_pass before_obstacles_def)

lemma animate_idle:
  "\<not> (gameStarted s \<and> \<not> gameOver s) \<Longrightarrow>
   animate rnd time s = camera_shake (particle_pass (s\<lparr>lastTime := time\<rparr>))"
  by (simp add: animate_pass play_update_idle)

lemma obstacle_effect_gameOver:
  "gameOver (obstacle_effect rnd delta obs s) =
   (gameOver s \<or> checkCollision s (advance_obstacle (speed s) delta obs))"
proof -
  have "checkCollision (createScoreParticles rnd (s\<lparr>score := score s + 100\<rparr>)) ob =
        checkCollision s ob" for ob
    by (rule checkCollision_cong) (simp_all add: burst_defs)
  then show ?thesis
    by (simp add: obstacle_effect_def endGame_def burst_defs Let_def)
qed

lemma fold_effect_gameOver:
  "gameOver (fold (obstacle_effect rnd delta) xs s) =
   (gameOver s \<or> (\<exists>obs \<in> set xs. checkCollision s (advance_obstacle (speed s) delta obs)))"
proof (induction xs arbitrary: s)
  case Nil
  then show ?case by simp
next
  case (Cons x xs)
  have same: "checkCollision (obstacle_effect rnd delta x s) ob = checkCollision s ob" for ob
    by (rule checkCollision_cong) (simp_all add: obstacle_effect_kept)
  show ?case
    by (auto simp add: Cons.IH obstacle_effect_gameOver obstacle_effect_kept same)
qed

lemma obstacle_pass_gameOver:
  "gameOver (obstacle_pass rnd delta s) =
   (gameOver s \<or>
    (\<exists>obs \<in> set (obstacles s). checkCollision s (advance_obstacle (speed s) delta obs)))"
  by (simp add: obstacle_pass_def fold_effect_gameOver)

lemma jump_physics_height:
  "dino_y (jump_physics rnd delta s) =
   (if isJumping s
    then (if dino_y s + jumpVelocity s * delta \<le> baseY then baseY
          else dino_y s + jumpVelocity s * delta)
    else dino_y s)"
  by (simp add: jump_physics_def burst_defs Let_def)

lemma jump_physics_velocity:
  "jumpVelocity (jump_physics rnd delta s) =
   (if isJumping s
    then (if dino_y s + jumpVelocity s * delta \<le> baseY then 0
          else jumpVelocity s - gravity * delta)
    else jumpVelocity s)"
  by (simp add: jump_physics_def burst_defs Let_def)

lemma animate_idle_kept:
  assumes "\<not> (gameStarted s \<and> \<not> gameOver s)"
  shows "dino_y (animate rnd time s) = dino_y s"
    and "jumpVelocity (animate rnd time s) = jumpVelocity s"
    and "isJumping (animate rnd time s) = isJumping s"
    and "obstacles (animate rnd time s) = obstacles s"
    and "score (animate rnd time s) = score s"
    and "obstacleTimer (animate rnd time s) = obstacleTimer s"
    and "gameStarted (animate rnd time s) = gameStarted s"
    and "gameOver (animate rnd time s) = gameOver s"
  using assms by (simp_all add: animate_idle particle_pass_kept)

section \<open>The best score and the store\<close>

lemma endGame_best:
  assumes "highScore s = stored_best s"
  shows "highScore (endGame rnd s) = stored_best (endGame rnd s)"
    and "stored_best s \<le> stored_best (endGame rnd s)"
  using assms by (simp_all add: endGame_def burst_defs stored_best_def Let_def)

lemma createScoreParticles_best:
  "highScore (createScoreParticles rnd s) = highScore s"
  "stored_best (createScoreParticles rnd s) = stored_best s"
  by (simp_all add: burst_defs stored_best_def)

lemma obstacle_effect_best:
  assumes "highScore s = stored_best s"
  shows "highScore (obstacle_effect rnd delta obs s) = stored_best (obstacle_effect rnd delta obs s) \<and>
         stored_best s \<le> stored_best (obstacle_effect rnd delta obs s)"
proof -
  let ?s1 = "if scores_now (speed s) delta obs
             then createScoreParticles rnd (s\<lparr>score := score s + 100\<rparr>) else s"
  have s1: "highScore ?s1 = stored_best ?s1" "stored_best ?s1 = stored_best s"
    using assms by (simp_all add: burst_defs stored_best_def)
  show ?thesis
    using endGame_best [OF s1(1), of rnd] s1
    by (simp add: obstacle_effect_def Let_def)
qed

lemma fold_effect_best:
  "highScore s = stored_best s \<Longrightarrow>
   highScore (fold (obstacle_effect rnd delta) xs s) =
     stored_best (fold (obstacle_effect rnd delta) xs s) \<and>
   stored_best s \<le> stored_best (fold (obstacle_effect rnd delta) xs s)"
proof (induction xs arbitrary: s)
  case Nil
  then show ?case by simp
next
  case (Cons x xs)
  from obstacle_effect_best [OF Cons.prems, of rnd delta x]
  have a: "highScore (obstacle_effect rnd delta x s) = stored_best (obstacle_effect rnd delta x s)"
    and b: "stored_best s \<le> stored_best (obstacle_effect rnd delta x s)"
    by simp_all
  from Cons.IH [OF a] b show ?case by simp
qed

lemma stored_best_cong:
  "storage s' = storage s \<Longrightarrow> stored_best s' = stored_best s"
  by (simp add: stored_best_def)

lemma play_update_best:
  assumes "highScore s = stored_best s"
  shows "highScore (play_update rnd delta s) = stored_best (play_update rnd delta s) \<and>
         stored_best s \<le> stored_best (play_update rnd delta s)"
proof (cases "gameStarted s \<and> \<not> gameOver s")
  case True
  let ?b = "spawn_obstacles rnd delta (s\<lparr>speed := baseSpeed + of_int (score s) * (5 / 100000)\<rparr>)"
  let ?f = "fold (obstacle_effect rnd delta) (rev (obstacles ?b)) ?b"
  have sb: "stored_best ?b = stored_best s"
    by (rule stored_best_cong) (simp add: spawn_obstacles_kept)
  have "highScore ?b = stored_best ?b"
    using assms sb by (simp add: spawn_obstacles_kept)
  from fold_effect_best [OF this, of rnd delta "rev (obstacles ?b)"]
  have f: "highScore ?f = stored_best ?f" "stored_best s \<le> stored_best ?f"
    using sb by simp_all
  have p: "stored_best (play_update rnd delta s) = stored_best ?f"
    using True
    by (intro stored_best_cong)
       (simp add: play_update_pass jump_physics_kept obstacle_pass_def)
  have h: "highScore (play_update rnd delta s) = highScore ?f"
    using True by (simp add: play_update_pass jump_physics_kept obstacle_pass_def)
  from f p h show ?thesis by simp
next
  case False
  then show ?thesis using assms by (simp add: play_update_idle)
qed

lemma step_best:
  assumes "highScore s = stored_best s"
  shows "highScore (step rnd s e) = stored_best (step rnd s e) \<and>
         stored_best s \<le> stored_best (step rnd s e)"
proof (cases e)
  case (Frame t)
  have "highScore (s\<lparr>lastTime := t\<rparr>) = stored_best (s\<lparr>lastTime := t\<rparr>)"
    using assms by (simp add: stored_best_def)
  from play_update_best [OF this, of rnd "frame_delta t s"]
  show ?thesis
    by (simp add: Frame animate_pass particle_pass_def stored_best_def)
qed (insert assms, auto simp: handler_defs burst_defs stored_best_def Let_def)

lemma run_best:
  "highScore s = stored_best s \<Longrightarrow>
   highScore (run rnd s evs) = stored_best (run rnd s evs) \<and>
   stored_best s \<le> stored_best (run rnd s evs)"
proof (induction evs rule: rev_induct)
  case Nil
  then show ?case by (simp add: run_Nil)
next
  case (snoc e evs)
  then have a: "highScore (run rnd s evs) = stored_best (run rnd s evs)"
    and b: "stored_best s \<le> stored_best (run rnd s evs)" by simp_all
  from step_best [OF a, of rnd e] b show ?case by (simp add: run_snoc)
qed

section \<open>A first game up to its first cactus\<close>

lemma run_append: "run rnd s (evs @ evs') = run rnd (run rnd s evs) evs'"
  by (simp add: run_def)

lemma frames_from_Suc:
  "frames_from t (Suc n) = frames_from t n @ [Frame (t + 40 * of_nat (Suc n))]"
  by (simp add: frames_from_def)

lemma frames_from_add:
  "frames_from t (m + n) = frames_from t m @ frames_from (t + 40 * of_nat m) n"
proof (induction n)
  case 0
  then show ?case by (simp add: frames_from_def)
next
  case (Suc n)
  have "frames_from t (m + Suc n) = frames_from t (m + n) @ [Frame (t + 40 * of_nat (Suc (m + n)))]"
    using frames_from_Suc [of t "m + n"] by simp
  also have "\<dots> = frames_from t m @ frames_from (t + 40 * of_nat m) n @
      [Frame (t + 40 * of_nat m + 40 * of_nat (Suc n))]"
    by (simp add: Suc.IH algebra_simps)
  also have "\<dots> = frames_from t m @ frames_from (t + 40 * of_nat m) (Suc n)"
    by (simp add: frames_from_Suc)
  finally show ?case .
qed

lemma fold_effect_quiet:
  "(\<forall>obs \<in> set xs. \<not> scores_now (speed s) delta obs \<and>
       \<not> checkCollision s (advance_obstacle (speed s) delta obs)) \<Longrightarrow>
   fold (obstacle_effect rnd delta) xs s = s"
  by (induction xs) (simp_all add: obstacle_effect_def)

lemma cactus_quiet:
  assumes "- 5 / 2 < x"
  shows "\<not> scores_now (3 / 20) 2 (cactus_at x)"
    and "\<not> checkCollision s (advance_obstacle (3 / 20) 2 (cactus_at x))"
    and "\<not> checkCollision s (cactus_at (x - 3 / 10))"
    and "advance_obstacle (3 / 20) 2 (cactus_at x) = cactus_at (x - 3 / 10)"
    and "on_screen (cactus_at (x - 3 / 10))"
  using assms
  by (simp_all add: scores_now_def cactus_at_def advance_obstacle_def checkCollision_def
      dinoBox_def obsBox_def on_screen_def dino_x_def Let_def)

lemma quiet_frame:
  assumes far: "\<forall>x \<in> set xs. - 5 / 2 < x" and tm: "timer + 2 \<le> 100"
  shows "animate rnd (t + 40) (cruising xs timer t k) =
         cruising (map (\<lambda>x. x - 3 / 10) xs) (timer + 2) (t + 40) k"
proof -
  let ?s = "cruising xs timer t k"
  let ?b = "?s\<lparr>obstacleTimer := timer + 2, lastTime := t + 40\<rparr>"
  have d: "frame_delta (t + 40) ?s = 2"
    by (simp add: frame_delta_def cruising_def)
  have b: "before_obstacles rnd (t + 40) ?s = ?b"
    unfolding before_obstacles_def d
    using tm by (simp add: spawn_obstacles_def spawnInterval_def cruising_def baseSpeed_def
        Let_def)
  have sp: "speed ?b = 3 / 20" and os: "obstacles ?b = map cactus_at xs"
    by (simp_all add: cruising_def)
  have quiet: "\<forall>obs \<in> set (rev (obstacles ?b)). \<not> scores_now (speed ?b) 2 obs \<and>
       \<not> checkCollision ?b (advance_obstacle (speed ?b) 2 obs)"
    using far unfolding sp os by (auto simp: cactus_quiet)
  have moved: "filter on_screen (map (advance_obstacle (3 / 20) 2) (map cactus_at xs)) =
      map cactus_at (map (\<lambda>x. x - 3 / 10) xs)"
    using far by (induction xs) (simp_all add: cactus_quiet)
  have "obstacle_pass rnd 2 ?b =
      ?b\<lparr>obstacles := filter on_screen (map (advance_obstacle (speed ?b) 2) (obstacles ?b))\<rparr>"
    unfolding obstacle_pass_def fold_effect_quiet [OF quiet] ..
  then have p: "obstacle_pass rnd 2 ?b =
      ?b\<lparr>obstacles := map cactus_at (map (\<lambda>x. x - 3 / 10) xs)\<rparr>"
    unfolding sp os moved .
  have "animate rnd (t + 40) ?s =
      camera_shake (particle_pass (jump_physics rnd 2 (obstacle_pass rnd 2 ?b)))"
    using animate_playing [of ?s rnd "t + 40"] unfolding d b by (simp add: cruising_def)
  also have "\<dots> = cruising (map (\<lambda>x. x - 3 / 10) xs) (timer + 2) (t + 40) k"
    unfolding p by (simp add: cruising_def jump_physics_def particle_pass_def camera_shake_def)
  finally show ?thesis .
qed

lemma quiet_run:
  "\<forall>x \<in> set xs. - 14 / 5 < x - 3 / 10 * of_nat n \<Longrightarrow> timer + 2 * of_nat n \<le> 100 \<Longrightarrow>
   run rnd (cruising xs timer t k) (frames_from t n) =
   cruising (map (\<lambda>x. x - 3 / 10 * of_nat n) xs) (timer + 2 * of_nat n) (t + 40 * of_nat n) k"
proof (induction n)
  case 0
  then show ?case by (simp add: frames_from_def run_Nil)
next
  case (Suc n)
  have far: "\<forall>x \<in> set xs. - 14 / 5 < x - 3 / 10 * of_nat n"
    using Suc.prems(1) by (auto simp: algebra_simps) 
  have tm: "timer + 2 * of_nat n \<le> 100"
    using Suc.prems(2) by (simp add: algebra_simps)
  have far': "\<forall>x \<in> set (map (\<lambda>x. x - 3 / 10 * of_nat n) xs). - 5 / 2 < x"
    using Suc.prems(1) by (auto simp: algebra_simps)
  have tm': "timer + 2 * of_nat n + 2 \<le> 100"
    using Suc.prems(2) by (simp add: algebra_simps)
  have "run rnd (cruising xs timer t k) (frames_from t (Suc n)) =
      animate rnd (t + 40 * of_nat n + 40)
        (cruising (map (\<lambda>x. x - 3 / 10 * of_nat n) xs) (timer + 2 * of_nat n)
           (t + 40 * of_nat n) k)"
    by (simp add: frames_from_Suc run_snoc Suc.IH [OF far tm] algebra_simps)
  also have "\<dots> = cruising (map (\<lambda>x. x - 3 / 10) (map (\<lambda>x. x - 3 / 10 * of_nat n) xs))
      (timer + 2 * of_nat n + 2) (t + 40 * of_nat n + 40) k"
    using quiet_frame [OF far' tm'] .
  also have "\<dots> = cruising (map (\<lambda>x. x - 3 / 10 * of_nat (Suc n)) xs)
      (timer + 2 * of_nat (Suc n)) (t + 40 * of_nat (Suc n)) k"
  proof -
    have "a - 3 / 10 * of_nat n - 3 / 10 = a - 3 / 10 * of_nat (Suc n)" for a :: rat
      by (simp add: field_simps)
    moreover have "timer + 2 * of_nat n + 2 = timer + 2 * of_nat (Suc n)"
      and "t + 40 * of_nat n + 40 = t + 40 * of_nat (Suc n)"
      by (simp_all add: field_simps)
    ultimately show ?thesis by (simp only: map_map comp_def)
  qed
  finally show ?case .
qed

lemma started_cruising:
  "run (\<lambda>_. 0) (initial None) [Frame 0, KeyDown ''Space''] = cruising [] 0 0 0"
  by (simp add: eval_defs cruising_def)

lemma first_spawn:
  "animate (\<lambda>_. 0) 2040 (cruising [] 100 2000 0) = cruising [197 / 10] 0 2040 4"
  by (simp add: eval_defs cruising_def cactus_at_def)

lemma second_spawn:
  "animate (\<lambda>_. 0) 4080 (cruising [47 / 10] 100 4040 4) = cruising [41 / 10 + 3 / 10, 197 / 10] 0 4080 8"
  by (simp add: eval_defs cruising_def cactus_at_def)

lemma frames_split:
  "frames_from 0 125 =
   frames_from 0 50 @ [Frame 2040] @ frames_from 2040 50 @ [Frame 4080] @ frames_from 4080 23"
proof -
  have one: "frames_from t (Suc 0) = [Frame (t + 40)]" for t
    by (simp add: frames_from_def)
  have "frames_from 0 125 = frames_from 0 (50 + (Suc 0 + (50 + (Suc 0 + 23))))"
    by simp
  also have "\<dots> = frames_from 0 50 @ [Frame 2040] @ frames_from 2040 50 @ [Frame 4080] @
      frames_from 4080 23"
    by (simp only: frames_from_add one) simp
  finally show ?thesis .
qed

lemma approach:
  "run (\<lambda>_. 0) (initial None) (Frame 0 # KeyDown ''Space'' # frames_from 0 125) =
   cruising [- 5 / 2, 64 / 5] 46 5000 8"
proof -
  let ?r = "\<lambda>_::nat. 0::rat"
  have a: "run ?r (cruising [] 0 0 0) (frames_from 0 50) = cruising [] 100 2000 0"
    using quiet_run [of "[]" 50 0 ?r 0 0] by simp
  have b: "run ?r (cruising [197 / 10] 0 2040 4) (frames_from 2040 50) =
      cruising [47 / 10] 100 4040 4"
    using quiet_run [of "[197 / 10]" 50 0 ?r 2040 4] by simp
  have c: "run ?r (cruising [44 / 10, 197 / 10] 0 4080 8) (frames_from 4080 23) =
      cruising [- 5 / 2, 64 / 5] 46 5000 8"
    using quiet_run [of "[44 / 10, 197 / 10]" 23 0 ?r 4080 8] by simp
  have "run ?r (initial None) (Frame 0 # KeyDown ''Space'' # frames_from 0 125) =
      run ?r (run ?r (initial None) [Frame 0, KeyDown ''Space'']) (frames_from 0 125)"
    using run_append [of ?r "initial None" "[Frame 0, KeyDown ''Space'']" "frames_from 0 125"]
    by simp
  also have "\<dots> = run ?r (cruising [] 0 0 0) (frames_from 0 125)"
    by (simp only: started_cruising)
  also have "\<dots> = cruising [- 5 / 2, 64 / 5] 46 5000 8"
    using a b c first_spawn second_spawn
    by (simp add: frames_split run_append run_Cons)
  finally show ?thesis .
qed

lemma jumped_at_cactus:
  "run (\<lambda>_. 0) (initial None)
     (Frame 0 # KeyDown ''Space'' # frames_from 0 125 @ [KeyDown ''Space'']) =
   onKeyDown (\<lambda>_. 0) ''Space'' (cruising [- 5 / 2, 64 / 5] 46 5000 8)"
  using run_append [of "\<lambda>_. 0" "initial None" "Frame 0 # KeyDown ''Space'' # frames_from 0 125"
      "[KeyDown ''Space'']"]
  by (simp only: approach) (simp add: run_def)

lemma hit_cactus:
  "run (\<lambda>_. 0) (initial None)
     (Frame 0 # KeyDown ''Space'' # frames_from 0 125 @ [KeyDown ''Space'', Frame 5040]) =
   animate (\<lambda>_. 0) 5040 (onKeyDown (\<lambda>_. 0) ''Space'' (cruising [- 5 / 2, 64 / 5] 46 5000 8))"
  using run_append [of "\<lambda>_. 0" "initial None" "Frame 0 # KeyDown ''Space'' # frames_from 0 125"
      "[KeyDown ''Space'', Frame 5040]"]
  by (simp only: approach) (simp add: run_def)

section \<open>Properties of the game\<close>

text \<open>
  C7. The spawn interval is a non-increasing function of the score: a larger score never
  gives a longer interval, and no score gives an interval below the floor of 50.
\<close>

theorem spawnInterval_antimono_floor:
  "s1 \<le> s2 \<Longrightarrow> spawnInterval s2 \<le> spawnInterval s1 \<and> 50 \<le> spawnInterval s1"
proof -
  assume le: "s1 \<le> s2"
  have "(of_int s1 :: rat) \<le> of_int s2" using le by simp
  then have "100 - (of_int s2 :: rat) * (3 / 100) \<le> 100 - of_int s1 * (3 / 100)" by simp
  then show ?thesis unfolding spawnInterval_def by (simp add: max.coboundedI2)
qed

theorem spawnInterval_witness:
  "(0::int) \<le> 2000 \<and> spawnInterval 2000 \<le> spawnInterval 0 \<and> 50 \<le> spawnInterval 0
   \<and> spawnInterval 0 = 100 \<and> spawnInterval 2000 = 50 \<and> spawnInterval 1000 = 70"
  using spawnInterval_antimono_floor [of 0 2000] by (simp add: spawnInterval_def)

text \<open>
  C8, as the code has it. Only the height of the player's hitbox depends on the duck
  state (1 when ducking, 2 when standing); its width is 1.2 in both postures, and its
  corner is the player's position shifted left by 0.4.
\<close>

theorem dinoBox_width_fixed:
  "box_width (dinoBox s) = 12 / 10 \<and> box_height (dinoBox s) = (if isDucking s then 1 else 2)
   \<and> box_x (dinoBox s) = dino_x - 4 / 10 \<and> box_y (dinoBox s) = dino_y s"
  by (simp add: dinoBox_def)

text \<open>The ducking and the standing hitbox have the same width and different heights.\<close>

theorem dinoBox_width_counterexample:
  "box_width (dinoBox ((initial None)\<lparr>isDucking := True\<rparr>)) =
   box_width (dinoBox ((initial None)\<lparr>isDucking := False\<rparr>))
   \<and> box_height (dinoBox ((initial None)\<lparr>isDucking := True\<rparr>)) \<noteq>
     box_height (dinoBox ((initial None)\<lparr>isDucking := False\<rparr>))"
  by (simp add: dinoBox_def initial_def)

text \<open>
  C10. Whenever the player is grounded (\<open>isJumping\<close> is false) the jump velocity is 0:
  this holds in every state that a run of events reaches from the initial state, and
  every single event preserves it.
\<close>

theorem grounded_velocity_zero:
  "(\<not> isJumping (run rnd (initial stored) evs) \<longrightarrow>
      jumpVelocity (run rnd (initial stored) evs) = 0) \<and>
   ((\<not> isJumping s \<longrightarrow> jumpVelocity s = 0) \<longrightarrow>
      (\<not> isJumping (step rnd s e) \<longrightarrow> jumpVelocity (step rnd s e) = 0))"
proof
  have "\<not> isJumping (initial stored) \<longrightarrow> jumpVelocity (initial stored) = 0"
    by (simp add: initial_def)
  then show "\<not> isJumping (run rnd (initial stored) evs) \<longrightarrow>
      jumpVelocity (run rnd (initial stored) evs) = 0"
    by (rule run_grounded)
  show "(\<not> isJumping s \<longrightarrow> jumpVelocity s = 0) \<longrightarrow>
      (\<not> isJumping (step rnd s e) \<longrightarrow> jumpVelocity (step rnd s e) = 0)"
    using step_grounded by blast
qed

theorem grounded_velocity_zero_witness:
  "\<not> isJumping (run (\<lambda>_. 0) (initial None) [Frame 0, KeyDown ''Space'', PointerDown, KeyUp ''ArrowDown''])
   \<and> jumpVelocity (run (\<lambda>_. 0) (initial None) [Frame 0, KeyDown ''Space'', PointerDown, KeyUp ''ArrowDown'']) = 0
   \<and> isJumping ((initial None)\<lparr>gameStarted := True, isJumping := True, jumpVelocity := - 1 / 10\<rparr>)
   \<and> \<not> isJumping (step (\<lambda>_. 0) ((initial None)\<lparr>gameStarted := True, isJumping := True, jumpVelocity := - 1 / 10\<rparr>) (Frame 40))
   \<and> jumpVelocity (step (\<lambda>_. 0) ((initial None)\<lparr>gameStarted := True, isJumping := True, jumpVelocity := - 1 / 10\<rparr>) (Frame 40)) = 0"
  using grounded_velocity_zero [of "\<lambda>_. 0" None "[Frame 0, KeyDown ''Space'', PointerDown, KeyUp ''ArrowDown'']"
      "(initial None)\<lparr>gameStarted := True, isJumping := True, jumpVelocity := - 1 / 10\<rparr>" "Frame 40"]
  by (simp add: eval_defs)

text \<open>
  C9. While the game is running and the player is airborne, the keyboard duck press is
  still taken: it sets the ducking flag and puts the player 0.5 below the base height,
  whatever height the jump had reached, and the player stays airborne. The pointer press
  changes nothing in such a state.
\<close>

theorem key_duck_airborne:
  "gameStarted s \<Longrightarrow> \<not> gameOver s \<Longrightarrow> isJumping s \<Longrightarrow>
     onKeyDown rnd ''ArrowDown'' s =
       s\<lparr>isDucking := True, dino_scale_y := 5 / 10, dino_y := baseY - 5 / 10\<rparr> \<and>
     isDucking (onKeyDown rnd ''ArrowDown'' s) \<and>
     dino_y (onKeyDown rnd ''ArrowDown'' s) = baseY - 5 / 10 \<and>
     isJumping (onKeyDown rnd ''ArrowDown'' s) \<and>
     onPointerDown s = s"
  by (simp add: onKeyDown_def onPointerDown_def)

theorem key_duck_airborne_witness:
  "gameStarted (run (\<lambda>_. 0) (initial None) [Frame 0, KeyDown ''Space'', KeyDown ''Space'', Frame 40]) \<and>
   \<not> gameOver (run (\<lambda>_. 0) (initial None) [Frame 0, KeyDown ''Space'', KeyDown ''Space'', Frame 40]) \<and>
   isJumping (run (\<lambda>_. 0) (initial None) [Frame 0, KeyDown ''Space'', KeyDown ''Space'', Frame 40]) \<and>
   dino_y (run (\<lambda>_. 0) (initial None) [Frame 0, KeyDown ''Space'', KeyDown ''Space'', Frame 40]) = - 9 / 10 \<and>
   dino_y (run (\<lambda>_. 0) (initial None)
            [Frame 0, KeyDown ''Space'', KeyDown ''Space'', Frame 40, KeyDown ''ArrowDown'']) = - 21 / 10 \<and>
   isDucking (run (\<lambda>_. 0) (initial None)
            [Frame 0, KeyDown ''Space'', KeyDown ''Space'', Frame 40, KeyDown ''ArrowDown'']) \<and>
   dino_y (run (\<lambda>_. 0) (initial None)
            [Frame 0, KeyDown ''Space'', KeyDown ''Space'', Frame 40, PointerDown]) = - 9 / 10 \<and>
   \<not> isDucking (run (\<lambda>_. 0) (initial None)
            [Frame 0, KeyDown ''Space'', KeyDown ''Space'', Frame 40, PointerDown])"
proof -
  let ?s = "run (\<lambda>_. 0) (initial None) [Frame 0, KeyDown ''Space'', KeyDown ''Space'', Frame 40]"
  have st: "gameStarted ?s" and go: "\<not> gameOver ?s" and ju: "isJumping ?s"
    and y: "dino_y ?s = - 9 / 10" and du: "\<not> isDucking ?s"
    by (simp_all add: eval_defs)
  have k: "run (\<lambda>_. 0) (initial None)
            [Frame 0, KeyDown ''Space'', KeyDown ''Space'', Frame 40, KeyDown ''ArrowDown'']
         = onKeyDown (\<lambda>_. 0) ''ArrowDown'' ?s"
    using run_snoc [of "\<lambda>_. 0" "initial None" "[Frame 0, KeyDown ''Space'', KeyDown ''Space'', Frame 40]"
        "KeyDown ''ArrowDown''"] by simp
  have p: "run (\<lambda>_. 0) (initial None)
            [Frame 0, KeyDown ''Space'', KeyDown ''Space'', Frame 40, PointerDown]
         = onPointerDown ?s"
    using run_snoc [of "\<lambda>_. 0" "initial None" "[Frame 0, KeyDown ''Space'', KeyDown ''Space'', Frame 40]"
        "PointerDown"] by simp
  from key_duck_airborne [OF st go ju, of "\<lambda>_. 0"] st go ju y du
  show ?thesis unfolding k p by (simp add: baseY_def groundY_def)
qed







text \<open>
  C6. The variable \<open>highScore\<close> always equals the best score that the store would give
  back, in every state that a run reaches, and the stored best never decreases along a
  run. In any such state \<open>endGame\<close> ends the run and overwrites the stored best with
  the score exactly when the score is strictly greater; otherwise the store and
  \<open>highScore\<close> are left as they are.
\<close>

theorem best_score_persisted:
  "highScore (run rnd (initial stored) evs) = stored_best (run rnd (initial stored) evs) \<and>
   stored_best (run rnd (initial stored) evs) \<le> stored_best (run rnd (initial stored) (evs @ evs')) \<and>
   (highScore s = stored_best s \<longrightarrow>
      gameOver (endGame rnd s) \<and>
      (stored_best s < score s \<longrightarrow>
         storage (endGame rnd s) = Some (score s) \<and> stored_best (endGame rnd s) = score s \<and>
         highScore (endGame rnd s) = score s) \<and>
      (\<not> stored_best s < score s \<longrightarrow>
         storage (endGame rnd s) = storage s \<and> highScore (endGame rnd s) = highScore s))"
proof -
  have i: "highScore (initial stored) = stored_best (initial stored)"
    by (simp add: initial_def stored_best_def split: option.splits)
  from run_best [OF i, of rnd evs]
  have a: "highScore (run rnd (initial stored) evs) = stored_best (run rnd (initial stored) evs)"
    by simp
  have "run rnd (initial stored) (evs @ evs') = run rnd (run rnd (initial stored) evs) evs'"
    by (simp add: run_def)
  with run_best [OF a, of rnd evs']
  have b: "stored_best (run rnd (initial stored) evs) \<le>
           stored_best (run rnd (initial stored) (evs @ evs'))"
    by simp
  have c: "highScore s = stored_best s \<longrightarrow>
      gameOver (endGame rnd s) \<and>
      (stored_best s < score s \<longrightarrow>
         storage (endGame rnd s) = Some (score s) \<and> stored_best (endGame rnd s) = score s \<and>
         highScore (endGame rnd s) = score s) \<and>
      (\<not> stored_best s < score s \<longrightarrow>
         storage (endGame rnd s) = storage s \<and> highScore (endGame rnd s) = highScore s)"
    by (auto simp add: endGame_def burst_defs stored_best_def Let_def)
  from a b c show ?thesis by blast
qed

theorem best_score_persisted_witness:
  "highScore ((initial (Some 100))\<lparr>gameStarted := True, score := 150\<rparr>) =
     stored_best ((initial (Some 100))\<lparr>gameStarted := True, score := 150\<rparr>) \<and>
   stored_best ((initial (Some 100))\<lparr>gameStarted := True, score := 150\<rparr>) = 100 \<and>
   storage (endGame (\<lambda>_. 0) ((initial (Some 100))\<lparr>gameStarted := True, score := 150\<rparr>)) = Some 150 \<and>
   highScore ((restartGame (endGame (\<lambda>_. 0)
       ((initial (Some 100))\<lparr>gameStarted := True, score := 150\<rparr>)))\<lparr>score := 90\<rparr>) =
     stored_best ((restartGame (endGame (\<lambda>_. 0)
       ((initial (Some 100))\<lparr>gameStarted := True, score := 150\<rparr>)))\<lparr>score := 90\<rparr>) \<and>
   storage (endGame (\<lambda>_. 0) ((restartGame (endGame (\<lambda>_. 0)
       ((initial (Some 100))\<lparr>gameStarted := True, score := 150\<rparr>)))\<lparr>score := 90\<rparr>)) = Some 150 \<and>
   highScore (endGame (\<lambda>_. 0) ((restartGame (endGame (\<lambda>_. 0)
       ((initial (Some 100))\<lparr>gameStarted := True, score := 150\<rparr>)))\<lparr>score := 90\<rparr>)) = 150"
  using best_score_persisted [of "\<lambda>_. 0" "Some 100" "[]" "[]"
      "(initial (Some 100))\<lparr>gameStarted := True, score := 150\<rparr>"]
    best_score_persisted [of "\<lambda>_. 0" "Some 100" "[]" "[]"
      "(restartGame (endGame (\<lambda>_. 0)
         ((initial (Some 100))\<lparr>gameStarted := True, score := 150\<rparr>)))\<lparr>score := 90\<rparr>"]
  by (simp add: eval_defs)

text \<open>
  C4, as the code has it. The particle loop runs on every frame, after the block of the
  running game, and does not read the delta multiplier: each particle moves by its
  velocity, its vertical velocity drops by 0.008 and its life by 0.02, and exactly the
  particles whose life is then still positive are kept, in their order.
\<close>

theorem particles_tick:
  "particles (animate rnd time s) =
     filter alive (map particle_advance
       (particles (play_update rnd (frame_delta time s) (s\<lparr>lastTime := time\<rparr>)))) \<and>
   (\<not> (gameStarted s \<and> \<not> gameOver s) \<longrightarrow>
      particles (animate rnd time s) = filter alive (map particle_advance (particles s))) \<and>
   position (particle_advance p) =
     \<lparr>vx = vx (position p) + vx (velocity p), vy = vy (position p) + vy (velocity p),
      vz = vz (position p) + vz (velocity p)\<rparr> \<and>
   velocity (particle_advance p) =
     \<lparr>vx = vx (velocity p), vy = vy (velocity p) - 8 / 1000, vz = vz (velocity p)\<rparr> \<and>
   life (particle_advance p) = life p - 2 / 100 \<and>
   alive p = (0 < life p) \<and>
   (\<forall>q \<in> set (particles (animate rnd time s)). 0 < life q)"
proof -
  have a: "particles (animate rnd time s) =
     filter alive (map particle_advance
       (particles (play_update rnd (frame_delta time s) (s\<lparr>lastTime := time\<rparr>))))"
    by (simp add: animate_pass particle_pass_def)
  have b: "\<not> (gameStarted s \<and> \<not> gameOver s) \<longrightarrow>
      particles (animate rnd time s) = filter alive (map particle_advance (particles s))"
    by (auto simp add: animate_pass play_update_idle particle_pass_def)
  have c: "position (particle_advance p) =
     \<lparr>vx = vx (position p) + vx (velocity p), vy = vy (position p) + vy (velocity p),
      vz = vz (position p) + vz (velocity p)\<rparr>"
    and d: "velocity (particle_advance p) =
     \<lparr>vx = vx (velocity p), vy = vy (velocity p) - 8 / 1000, vz = vz (velocity p)\<rparr>"
    and e: "life (particle_advance p) = life p - 2 / 100"
    by (simp_all add: particle_advance_def Let_def split: option.splits)
  have f: "alive p = (0 < life p)"
    by (auto simp add: alive_def)
  have g: "\<forall>q \<in> set (particles (animate rnd time s)). 0 < life q"
    unfolding a by (auto simp add: alive_def)
  from a b c d e f g show ?thesis by blast
qed

theorem particles_tick_witness:
  "\<not> (gameStarted ((initial None)\<lparr>gameStarted := True, gameOver := True, lastTime := 100,
          particles := [deathParticle (\<lambda>_. 1) 0 0, (deathParticle (\<lambda>_. 1) 0 0)\<lparr>life := 2 / 100\<rparr>]\<rparr>) \<and>
       \<not> gameOver ((initial None)\<lparr>gameStarted := True, gameOver := True, lastTime := 100,
          particles := [deathParticle (\<lambda>_. 1) 0 0, (deathParticle (\<lambda>_. 1) 0 0)\<lparr>life := 2 / 100\<rparr>]\<rparr>)) \<and>
   frame_delta 140 ((initial None)\<lparr>gameStarted := True, gameOver := True, lastTime := 100,
          particles := [deathParticle (\<lambda>_. 1) 0 0, (deathParticle (\<lambda>_. 1) 0 0)\<lparr>life := 2 / 100\<rparr>]\<rparr>) = 2 \<and>
   particles (animate (\<lambda>_. 1) 140 ((initial None)\<lparr>gameStarted := True, gameOver := True, lastTime := 100,
          particles := [deathParticle (\<lambda>_. 1) 0 0, (deathParticle (\<lambda>_. 1) 0 0)\<lparr>life := 2 / 100\<rparr>]\<rparr>)) =
     [particle_advance (deathParticle (\<lambda>_. 1) 0 0)] \<and>
   position (particle_advance (deathParticle (\<lambda>_. 1) 0 0)) =
     \<lparr>vx = - 4 + 2 / 10, vy = 1 + 3 / 10, vz = 2 / 10\<rparr> \<and>
   life (particle_advance (deathParticle (\<lambda>_. 1) 0 0)) = 98 / 100"
proof -
  let ?s = "(initial None)\<lparr>gameStarted := True, gameOver := True, lastTime := 100,
          particles := [deathParticle (\<lambda>_. 1) 0 0, (deathParticle (\<lambda>_. 1) 0 0)\<lparr>life := 2 / 100\<rparr>]\<rparr>"
  let ?p = "deathParticle (\<lambda>_. 1) 0 0"
  note t = particles_tick [of "\<lambda>_. 1" 140 ?s ?p]
  have over: "\<not> (gameStarted ?s \<and> \<not> gameOver ?s)" by simp
  have d: "frame_delta 140 ?s = 2" by (simp add: frame_delta_def)
  have "particles (animate (\<lambda>_. 1) 140 ?s) = filter alive (map particle_advance (particles ?s))"
    using t over by blast
  also have "\<dots> = [particle_advance ?p]"
    by (simp add: alive_def particle_advance_def deathParticle_def Let_def)
  finally have ps: "particles (animate (\<lambda>_. 1) 140 ?s) = [particle_advance ?p]" .
  have pos: "position (particle_advance ?p) = \<lparr>vx = - 4 + 2 / 10, vy = 1 + 3 / 10, vz = 2 / 10\<rparr>"
    and lf: "life (particle_advance ?p) = 98 / 100"
    using t by (simp_all add: deathParticle_def dino_x_def)
  from over d ps pos lf show ?thesis by blast
qed

text \<open>A jump burst followed by a frame of delta 2: the first particle has moved by once
  its velocity and lost 0.02 of life, not twice that.\<close>

theorem particles_delta_counterexample:
  "frame_delta 40 (run (\<lambda>_. 3 / 4) (initial None) [Frame 0, KeyDown ''Space'', KeyDown ''Space'']) = 2 \<and>
   vx (velocity (particles
       (run (\<lambda>_. 3 / 4) (initial None) [Frame 0, KeyDown ''Space'', KeyDown ''Space'']) ! 0)) = 1 / 20 \<and>
   vx (position (particles
       (run (\<lambda>_. 3 / 4) (initial None) [Frame 0, KeyDown ''Space'', KeyDown ''Space'']) ! 0)) = - 15 / 4 \<and>
   life (particles
       (run (\<lambda>_. 3 / 4) (initial None) [Frame 0, KeyDown ''Space'', KeyDown ''Space'']) ! 0) = 1 \<and>
   vx (position (particles
       (run (\<lambda>_. 3 / 4) (initial None) [Frame 0, KeyDown ''Space'', KeyDown ''Space'', Frame 40]) ! 0))
     = - 15 / 4 + 1 / 20 \<and>
   vx (position (particles
       (run (\<lambda>_. 3 / 4) (initial None) [Frame 0, KeyDown ''Space'', KeyDown ''Space'', Frame 40]) ! 0))
     \<noteq> - 15 / 4 + (1 / 20) * 2 \<and>
   life (particles
       (run (\<lambda>_. 3 / 4) (initial None) [Frame 0, KeyDown ''Space'', KeyDown ''Space'', Frame 40]) ! 0)
     = 1 - 2 / 100 \<and>
   life (particles
       (run (\<lambda>_. 3 / 4) (initial None) [Frame 0, KeyDown ''Space'', KeyDown ''Space'', Frame 40]) ! 0)
     \<noteq> 1 - (2 / 100) * 2"
  by (simp add: eval_defs)

text \<open>
  C5. In a tick of a running game the score grows by exactly 100 for each obstacle that
  is not yet flagged as passed and whose moved position is more than 1 behind the
  player, and the obstacles left after the tick are the moved ones that are still on
  screen. No tick lowers the score. An obstacle is flagged in the tick in which it
  scores and keeps the flag, and a flagged obstacle adds nothing in any later tick, at
  any speed and delta, although its position stays behind the player.
\<close>

theorem score_once_per_obstacle:
  "(gameStarted s \<and> \<not> gameOver s \<longrightarrow>
      score (animate rnd time s) =
        score s + 100 * int (length (filter
          (scores_now (speed (before_obstacles rnd time s)) (frame_delta time s))
          (obstacles (before_obstacles rnd time s)))) \<and>
      obstacles (animate rnd time s) =
        filter on_screen (map
          (advance_obstacle (speed (before_obstacles rnd time s)) (frame_delta time s))
          (obstacles (before_obstacles rnd time s)))) \<and>
   score s \<le> score (animate rnd time s) \<and>
   scores_now sp delta obs = (\<not> passed obs \<and> pos_x obs - sp * delta < dino_x - 1) \<and>
   passed (advance_obstacle sp delta obs) = (passed obs \<or> scores_now sp delta obs) \<and>
   (passed obs \<or> scores_now sp delta obs \<longrightarrow>
      \<not> scores_now sp' delta' (advance_obstacle sp delta obs))"
proof -
  let ?d = "frame_delta time s"
  let ?b = "before_obstacles rnd time s"
  have play: "score (animate rnd time s) =
        score s + 100 * int (length (filter (scores_now (speed ?b) ?d) (obstacles ?b))) \<and>
      obstacles (animate rnd time s) =
        filter on_screen (map (advance_obstacle (speed ?b) ?d) (obstacles ?b))"
    if "gameStarted s" "\<not> gameOver s"
    using that
    by (simp add: animate_playing particle_pass_kept jump_physics_kept obstacle_pass_score
        obstacle_pass_obstacles before_obstacles_kept)
  have idle: "score (animate rnd time s) = score s" if "\<not> (gameStarted s \<and> \<not> gameOver s)"
    using that by (simp add: animate_idle particle_pass_kept)
  have mono: "score s \<le> score (animate rnd time s)"
  proof (cases "gameStarted s \<and> \<not> gameOver s")
    case True
    then show ?thesis using play by simp
  next
    case False
    then show ?thesis using idle by simp
  qed
  have flag: "passed (advance_obstacle sp delta obs) = (passed obs \<or> scores_now sp delta obs)"
    by (simp add: advance_obstacle_fields)
  have once: "passed obs \<or> scores_now sp delta obs \<longrightarrow>
      \<not> scores_now sp' delta' (advance_obstacle sp delta obs)"
    using flag by (simp add: scores_now_def [of sp' delta'])
  from play mono flag once show ?thesis
    by (simp add: scores_now_def [of sp delta obs])
qed

theorem score_once_per_obstacle_witness:
  "gameStarted (cruising [- 49 / 10, 101 / 10] 30 5000 8) \<and>
   \<not> gameOver (cruising [- 49 / 10, 101 / 10] 30 5000 8) \<and>
   score (cruising [- 49 / 10, 101 / 10] 30 5000 8) = 0 \<and>
   score (animate (\<lambda>_. 0) 5040 (cruising [- 49 / 10, 101 / 10] 30 5000 8)) = 100 \<and>
   obstacles (animate (\<lambda>_. 0) 5040 (cruising [- 49 / 10, 101 / 10] 30 5000 8)) =
     [(cactus_at (- 52 / 10))\<lparr>passed := True\<rparr>, cactus_at (98 / 10)] \<and>
   score (animate (\<lambda>_. 0) 5080 ((cruising [] 32 5040 40)
       \<lparr>score := 100, obstacles := [(cactus_at (- 52 / 10))\<lparr>passed := True\<rparr>, cactus_at (98 / 10)]\<rparr>))
     = 100"
proof -
  let ?s = "cruising [- 49 / 10, 101 / 10] 30 5000 8"
  let ?s' = "(cruising [] 32 5040 40)
       \<lparr>score := 100, obstacles := [(cactus_at (- 52 / 10))\<lparr>passed := True\<rparr>, cactus_at (98 / 10)]\<rparr>"
  have st: "gameStarted ?s \<and> \<not> gameOver ?s" and sc: "score ?s = 0"
    by (simp_all add: cruising_def)
  have st': "gameStarted ?s' \<and> \<not> gameOver ?s'"
    by (simp add: cruising_def)
  note t = score_once_per_obstacle [of ?s "\<lambda>_. 0" 5040, THEN conjunct1, rule_format, OF st]
  note t' = score_once_per_obstacle [of ?s' "\<lambda>_. 0" 5080, THEN conjunct1, rule_format, OF st']
  have b: "before_obstacles (\<lambda>_. 0) 5040 ?s = cruising [- 49 / 10, 101 / 10] 32 5040 8"
    by (simp add: before_obstacles_def frame_delta_def spawn_obstacles_def spawnInterval_def
        cruising_def baseSpeed_def Let_def)
  have d: "frame_delta 5040 ?s = 2"
    by (simp add: frame_delta_def cruising_def)
  have one: "score (animate (\<lambda>_. 0) 5040 ?s) = 100"
    unfolding t [THEN conjunct1] b d
    by (simp add: cruising_def cactus_at_def scores_now_def dino_x_def)
  have obs: "obstacles (animate (\<lambda>_. 0) 5040 ?s) =
      [(cactus_at (- 52 / 10))\<lparr>passed := True\<rparr>, cactus_at (98 / 10)]"
    unfolding t [THEN conjunct2] b d
    by (simp add: cruising_def cactus_at_def scores_now_def advance_obstacle_def on_screen_def
        dino_x_def Let_def)
  have b': "obstacles (before_obstacles (\<lambda>_. 0) 5080 ?s') =
        [(cactus_at (- 52 / 10))\<lparr>passed := True\<rparr>, cactus_at (98 / 10)]"
    and sp': "speed (before_obstacles (\<lambda>_. 0) 5080 ?s') = 31 / 200"
    and d': "frame_delta 5080 ?s' = 2"
    by (simp_all add: before_obstacles_def frame_delta_def spawn_obstacles_def spawnInterval_def
        cruising_def baseSpeed_def Let_def)
  have two: "score (animate (\<lambda>_. 0) 5080 ?s') = 100"
    unfolding t' [THEN conjunct1] b' sp' d'
    by (simp add: cruising_def cactus_at_def scores_now_def dino_x_def)
  from st sc one obs two show ?thesis by (intro conjI) simp_all
qed

text \<open>
  C2, as the code has it. A tick of a running game spawns, then handles the obstacles
  from the newest to the oldest (for each one: motion, then scoring, then the collision
  test, then removal when off screen), then integrates the jump, then updates the
  particles, then shakes the camera. The game is over after the tick exactly when some
  moved obstacle, a just-spawned one included, overlaps the player as the player stood
  before the tick. The jump integration of the tick is applied whether or not a
  collision ended the run in it: the guard of the block is read once, before the
  obstacles are handled. A tick of a game that is over or not started only updates the
  particles and the camera: the player's height and velocity, the obstacles, the score
  and the spawn timer stay as they are, so every tick after the one that ended the run
  skips the jump integration.
\<close>

theorem tick_order:
  "(gameStarted s \<and> \<not> gameOver s \<longrightarrow>
      animate rnd time s =
        camera_shake (particle_pass (jump_physics rnd (frame_delta time s)
          (obstacle_pass rnd (frame_delta time s)
            (spawn_obstacles rnd (frame_delta time s)
              (s\<lparr>lastTime := time, speed := baseSpeed + of_int (score s) * (5 / 100000)\<rparr>))))) \<and>
      gameOver (animate rnd time s) =
        (\<exists>obs \<in> set (obstacles (spawn_obstacles rnd (frame_delta time s)
              (s\<lparr>lastTime := time, speed := baseSpeed + of_int (score s) * (5 / 100000)\<rparr>))).
           checkCollision s (advance_obstacle (baseSpeed + of_int (score s) * (5 / 100000))
              (frame_delta time s) obs)) \<and>
      dino_y (animate rnd time s) =
        (if isJumping s
         then (if dino_y s + jumpVelocity s * frame_delta time s \<le> baseY then baseY
               else dino_y s + jumpVelocity s * frame_delta time s)
         else dino_y s) \<and>
      jumpVelocity (animate rnd time s) =
        (if isJumping s
         then (if dino_y s + jumpVelocity s * frame_delta time s \<le> baseY then 0
               else jumpVelocity s - gravity * frame_delta time s)
         else jumpVelocity s)) \<and>
   (\<not> (gameStarted s \<and> \<not> gameOver s) \<longrightarrow>
      animate rnd time s = camera_shake (particle_pass (s\<lparr>lastTime := time\<rparr>)) \<and>
      dino_y (animate rnd time s) = dino_y s \<and>
      jumpVelocity (animate rnd time s) = jumpVelocity s \<and>
      isJumping (animate rnd time s) = isJumping s \<and>
      obstacles (animate rnd time s) = obstacles s \<and>
      score (animate rnd time s) = score s \<and>
      obstacleTimer (animate rnd time s) = obstacleTimer s \<and>
      gameStarted (animate rnd time s) = gameStarted s \<and>
      gameOver (animate rnd time s) = gameOver s) \<and>
   (gameOver (animate rnd time s) \<longrightarrow>
      gameOver (animate rnd time' (animate rnd time s)) \<and>
      dino_y (animate rnd time' (animate rnd time s)) = dino_y (animate rnd time s) \<and>
      jumpVelocity (animate rnd time' (animate rnd time s)) = jumpVelocity (animate rnd time s) \<and>
      obstacles (animate rnd time' (animate rnd time s)) = obstacles (animate rnd time s) \<and>
      score (animate rnd time' (animate rnd time s)) = score (animate rnd time s))"
proof -
  let ?d = "frame_delta time s"
  let ?b = "before_obstacles rnd time s"
  have b: "?b = spawn_obstacles rnd ?d
      (s\<lparr>lastTime := time, speed := baseSpeed + of_int (score s) * (5 / 100000)\<rparr>)"
    by (simp add: before_obstacles_def)
  have same: "checkCollision ?b ob = checkCollision s ob" for ob
    by (rule checkCollision_cong) (simp_all add: before_obstacles_kept)
  have playing: "animate rnd time s =
        camera_shake (particle_pass (jump_physics rnd ?d (obstacle_pass rnd ?d ?b))) \<and>
      gameOver (animate rnd time s) =
        (\<exists>obs \<in> set (obstacles ?b).
           checkCollision s (advance_obstacle (baseSpeed + of_int (score s) * (5 / 100000)) ?d obs)) \<and>
      dino_y (animate rnd time s) =
        (if isJumping s
         then (if dino_y s + jumpVelocity s * ?d \<le> baseY then baseY
               else dino_y s + jumpVelocity s * ?d)
         else dino_y s) \<and>
      jumpVelocity (animate rnd time s) =
        (if isJumping s
         then (if dino_y s + jumpVelocity s * ?d \<le> baseY then 0
               else jumpVelocity s - gravity * ?d)
         else jumpVelocity s)"
    if run: "gameStarted s \<and> \<not> gameOver s"
  proof -
    have eq: "animate rnd time s =
        camera_shake (particle_pass (jump_physics rnd ?d (obstacle_pass rnd ?d ?b)))"
      using run by (simp add: animate_playing)
    have over: "gameOver (animate rnd time s) =
        (\<exists>obs \<in> set (obstacles ?b).
           checkCollision s (advance_obstacle (baseSpeed + of_int (score s) * (5 / 100000)) ?d obs))"
      using run
      by (simp add: eq particle_pass_kept jump_physics_kept obstacle_pass_gameOver
          before_obstacles_kept same)
    have y: "dino_y (animate rnd time s) =
        (if isJumping s
         then (if dino_y s + jumpVelocity s * ?d \<le> baseY then baseY
               else dino_y s + jumpVelocity s * ?d)
         else dino_y s)"
      by (simp add: eq particle_pass_kept jump_physics_height obstacle_pass_kept
          before_obstacles_kept)
    have v: "jumpVelocity (animate rnd time s) =
        (if isJumping s
         then (if dino_y s + jumpVelocity s * ?d \<le> baseY then 0
               else jumpVelocity s - gravity * ?d)
         else jumpVelocity s)"
      by (simp add: eq particle_pass_kept jump_physics_velocity obstacle_pass_kept
          before_obstacles_kept)
    from eq over y v show ?thesis by blast
  qed
  have idle: "animate rnd time s = camera_shake (particle_pass (s\<lparr>lastTime := time\<rparr>)) \<and>
      dino_y (animate rnd time s) = dino_y s \<and>
      jumpVelocity (animate rnd time s) = jumpVelocity s \<and>
      isJumping (animate rnd time s) = isJumping s \<and>
      obstacles (animate rnd time s) = obstacles s \<and>
      score (animate rnd time s) = score s \<and>
      obstacleTimer (animate rnd time s) = obstacleTimer s \<and>
      gameStarted (animate rnd time s) = gameStarted s \<and>
      gameOver (animate rnd time s) = gameOver s"
    if "\<not> (gameStarted s \<and> \<not> gameOver s)"
    using animate_idle [OF that] animate_idle_kept [OF that] by blast
  have later: "gameOver (animate rnd time' (animate rnd time s)) \<and>
      dino_y (animate rnd time' (animate rnd time s)) = dino_y (animate rnd time s) \<and>
      jumpVelocity (animate rnd time' (animate rnd time s)) = jumpVelocity (animate rnd time s) \<and>
      obstacles (animate rnd time' (animate rnd time s)) = obstacles (animate rnd time s) \<and>
      score (animate rnd time' (animate rnd time s)) = score (animate rnd time s)"
    if over: "gameOver (animate rnd time s)"
  proof -
    from over have n: "\<not> (gameStarted (animate rnd time s) \<and> \<not> gameOver (animate rnd time s))"
      by simp
    from animate_idle_kept [OF n] over show ?thesis by simp
  qed
  from playing idle later show ?thesis unfolding b by blast
qed

theorem tick_order_witness:
  "gameStarted (run (\<lambda>_. 0) (initial None)
       (Frame 0 # KeyDown ''Space'' # frames_from 0 125 @ [KeyDown ''Space''])) \<and>
   \<not> gameOver (run (\<lambda>_. 0) (initial None)
       (Frame 0 # KeyDown ''Space'' # frames_from 0 125 @ [KeyDown ''Space''])) \<and>
   gameOver (animate (\<lambda>_. 0) 5040 (run (\<lambda>_. 0) (initial None)
       (Frame 0 # KeyDown ''Space'' # frames_from 0 125 @ [KeyDown ''Space'']))) \<and>
   dino_y (animate (\<lambda>_. 0) 5040 (run (\<lambda>_. 0) (initial None)
       (Frame 0 # KeyDown ''Space'' # frames_from 0 125 @ [KeyDown ''Space'']))) = - 9 / 10 \<and>
   \<not> (gameStarted (animate (\<lambda>_. 0) 5040 (run (\<lambda>_. 0) (initial None)
            (Frame 0 # KeyDown ''Space'' # frames_from 0 125 @ [KeyDown ''Space'']))) \<and>
       \<not> gameOver (animate (\<lambda>_. 0) 5040 (run (\<lambda>_. 0) (initial None)
            (Frame 0 # KeyDown ''Space'' # frames_from 0 125 @ [KeyDown ''Space''])))) \<and>
   isJumping (animate (\<lambda>_. 0) 5080 (animate (\<lambda>_. 0) 5040 (run (\<lambda>_. 0) (initial None)
       (Frame 0 # KeyDown ''Space'' # frames_from 0 125 @ [KeyDown ''Space''])))) \<and>
   dino_y (animate (\<lambda>_. 0) 5080 (animate (\<lambda>_. 0) 5040 (run (\<lambda>_. 0) (initial None)
       (Frame 0 # KeyDown ''Space'' # frames_from 0 125 @ [KeyDown ''Space''])))) = - 9 / 10"
proof -
  let ?s = "onKeyDown (\<lambda>_. 0) ''Space'' (cruising [- 5 / 2, 64 / 5] 46 5000 8)"
  let ?g = "animate (\<lambda>_. 0) 5040 ?s"
  have run: "gameStarted ?s \<and> \<not> gameOver ?s" and ju: "isJumping ?s"
    by (simp_all add: eval_defs cruising_def)
  have d: "frame_delta 5040 ?s = 2"
    by (simp add: eval_defs cruising_def)
  note t = tick_order [of ?s "\<lambda>_. 0" 5040 5080, unfolded d]
  note p = t [THEN conjunct1, rule_format, OF run, THEN conjunct2]
  have hit: "checkCollision ?s (advance_obstacle (baseSpeed + of_int (score ?s) * (5 / 100000)) 2
      (cactus_at (- 5 / 2)))"
    by (simp add: eval_defs cruising_def cactus_at_def)
  have there: "cactus_at (- 5 / 2) \<in> set (obstacles (spawn_obstacles (\<lambda>_. 0) 2
      (?s\<lparr>lastTime := 5040, speed := baseSpeed + of_int (score ?s) * (5 / 100000)\<rparr>)))"
    by (simp add: eval_defs cruising_def)
  have o: "gameOver ?g"
    unfolding p [THEN conjunct1] using hit there by (rule bexI)
  have "(if isJumping ?s
       then (if dino_y ?s + jumpVelocity ?s * 2 \<le> baseY then baseY
             else dino_y ?s + jumpVelocity ?s * 2)
       else dino_y ?s) = - 9 / 10"
    by (simp add: eval_defs cruising_def)
  then have y: "dino_y ?g = - 9 / 10"
    unfolding p [THEN conjunct2, THEN conjunct1] .
  from o have n: "\<not> (gameStarted ?g \<and> \<not> gameOver ?g)" by simp
  note q = tick_order [of ?g "\<lambda>_. 0" 5080, THEN conjunct2, THEN conjunct1, rule_format, OF n]
  have ju': "isJumping ?g"
    unfolding animate_playing [of ?s "\<lambda>_. 0" 5040, OF run [THEN conjunct1] run [THEN conjunct2]]
    by (simp add: particle_pass_kept jump_physics_def obstacle_pass_kept before_obstacles_kept
        burst_defs Let_def d) (simp add: eval_defs cruising_def)
  have j2: "isJumping (animate (\<lambda>_. 0) 5080 ?g)"
    unfolding q [THEN conjunct2, THEN conjunct2, THEN conjunct2, THEN conjunct1] by (rule ju')
  have y2: "dino_y (animate (\<lambda>_. 0) 5080 ?g) = - 9 / 10"
    by (rule trans [OF q [THEN conjunct2, THEN conjunct1] y])
  from run o y n j2 y2 show ?thesis
    unfolding jumped_at_cactus by (intro conjI) simp_all
qed

text \<open>A first game on a fresh page: 125 frames 40 ms apart bring the first cactus to 1.5
  ahead of the player, the player jumps, and the next frame ends the run; that frame
  still moves the player up by the jump velocity times delta and applies gravity to the
  velocity.\<close>

theorem physics_after_collision_counterexample:
  "\<not> gameOver (run (\<lambda>_. 0) (initial None)
        (Frame 0 # KeyDown ''Space'' # frames_from 0 125 @ [KeyDown ''Space''])) \<and>
   dino_y (run (\<lambda>_. 0) (initial None)
        (Frame 0 # KeyDown ''Space'' # frames_from 0 125 @ [KeyDown ''Space''])) = - 16 / 10 \<and>
   jumpVelocity (run (\<lambda>_. 0) (initial None)
        (Frame 0 # KeyDown ''Space'' # frames_from 0 125 @ [KeyDown ''Space''])) = 35 / 100 \<and>
   gameOver (run (\<lambda>_. 0) (initial None)
        (Frame 0 # KeyDown ''Space'' # frames_from 0 125 @ [KeyDown ''Space'', Frame 5040])) \<and>
   dino_y (run (\<lambda>_. 0) (initial None)
        (Frame 0 # KeyDown ''Space'' # frames_from 0 125 @ [KeyDown ''Space'', Frame 5040]))
     = - 16 / 10 + (35 / 100) * 2 \<and>
   jumpVelocity (run (\<lambda>_. 0) (initial None)
        (Frame 0 # KeyDown ''Space'' # frames_from 0 125 @ [KeyDown ''Space'', Frame 5040]))
     = 35 / 100 - (15 / 1000) * 2"
proof -
  let ?s = "onKeyDown (\<lambda>_. 0) ''Space'' (cruising [- 5 / 2, 64 / 5] 46 5000 8)"
  have "\<not> gameOver ?s" and "dino_y ?s = - 16 / 10" and "jumpVelocity ?s = 35 / 100"
    and "gameOver (animate (\<lambda>_. 0) 5040 ?s)"
    and "dino_y (animate (\<lambda>_. 0) 5040 ?s) = - 16 / 10 + (35 / 100) * 2"
    and "jumpVelocity (animate (\<lambda>_. 0) 5040 ?s) = 35 / 100 - (15 / 1000) * 2"
    by (simp_all add: eval_defs cruising_def cactus_at_def)
  then show ?thesis
    unfolding jumped_at_cactus hit_cactus by (intro conjI)
qed

end
